theory Spec2Isabelle
  imports Complex_Main
begin

section \<open>Conventions of the embedding\<close>

text \<open>
  The development embeds the sample-path model of \<^verbatim>\<open>msppy/msp.py\<close> (class \<^verbatim>\<open>MSLP\<close>) and the
  evaluation engine of \<^verbatim>\<open>msppy/evaluation.py\<close> (classes \<^verbatim>\<open>_Evaluation\<close>, \<^verbatim>\<open>Evaluation\<close>,
  \<^verbatim>\<open>EvaluationTrue\<close>).

  \<^item> Python exceptions are values of \<open>py_error\<close>; a function that may raise returns
    \<open>py_error + 'a\<close> with \<open>Inl\<close> for the exception.
  \<^item> The values of Python and numpy floating-point numbers are idealised as \<open>real\<close>: rounding
    is outside the model, and so are infinities and IEEE not-a-number values other than
    those that a numpy division by zero produces in \<^verbatim>\<open>_compute_gap\<close>.
  \<^item> Indices that the source draws from \<^verbatim>\<open>range(...)\<close> are natural numbers; a read past the
    end of a list is the \<open>IndexError\<close> that Python raises.
\<close>

datatype py_error =
    NotImplementedError
  | UnboundLocalError
  | AttributeError
  | TypeError
  | ValueError
  | IndexError
  | KeyError
  | ZeroDivisionError
  | SolverError

definition py_bind :: "py_error + 'a \<Rightarrow> ('a \<Rightarrow> py_error + 'b) \<Rightarrow> py_error + 'b" where
  "py_bind r f = (case r of Inl e \<Rightarrow> Inl e | Inr x \<Rightarrow> f x)"

text \<open>A list comprehension whose element expression may raise: the first exception ends it.\<close>

fun py_map :: "('a \<Rightarrow> py_error + 'b) \<Rightarrow> 'a list \<Rightarrow> py_error + 'b list" where
  "py_map f [] = Inr []"
| "py_map f (x # xs) =
     py_bind (f x) (\<lambda>y. py_bind (py_map f xs) (\<lambda>ys. Inr (y # ys)))"

text \<open>\<^verbatim>\<open>xs[i]\<close> for a non-negative index.\<close>

definition getitem :: "'a list \<Rightarrow> nat \<Rightarrow> py_error + 'a" where
  "getitem xs i = (if i < length xs then Inr (xs ! i) else Inl IndexError)"

subsection \<open>Python numbers and numpy scalars\<close>

text \<open>
  The policy values, the interval, the exact expected value and the deterministic bound are
  Python numbers (\<^verbatim>\<open>int\<close> or \<^verbatim>\<open>float\<close>) or numpy scalars (\<^verbatim>\<open>numpy.float64\<close>), depending on
  where they come from. The two kinds agree on every operation of the code except the
  division by zero: between Python numbers it raises \<^verbatim>\<open>ZeroDivisionError\<close>; as soon as one
  operand is a numpy scalar, numpy carries out the operation, and with its default error
  settings a division by zero gives \<^verbatim>\<open>inf\<close>, \<^verbatim>\<open>-inf\<close> or \<^verbatim>\<open>nan\<close> with a warning and raises
  nothing. The result of an operation is a numpy scalar when one of the operands is.
\<close>

datatype number = Py real | Np real

fun value_of :: "number \<Rightarrow> real" where
  "value_of (Py x) = x"
| "value_of (Np x) = x"

fun is_numpy :: "number \<Rightarrow> bool" where
  "is_numpy (Py x) = False"
| "is_numpy (Np x) = True"

definition arith :: "(real \<Rightarrow> real \<Rightarrow> real) \<Rightarrow> number \<Rightarrow> number \<Rightarrow> number" where
  "arith f a b =
     (if is_numpy a \<or> is_numpy b then Np (f (value_of a) (value_of b))
      else Py (f (value_of a) (value_of b)))"

definition py_sub :: "number \<Rightarrow> number \<Rightarrow> number" where
  "py_sub a b = arith (-) a b"

text \<open>
  The result of a division: a number, or numpy's \<^verbatim>\<open>inf\<close> (of either sign) or \<^verbatim>\<open>nan\<close>.
\<close>

datatype quotient = Number number | Infinity | Not_a_number

definition py_div :: "number \<Rightarrow> number \<Rightarrow> py_error + quotient" where
  "py_div a b =
     (if value_of b \<noteq> 0 then Inr (Number (arith (/) a b))
      else if is_numpy a \<or> is_numpy b
        then Inr (if value_of a = 0 then Not_a_number else Infinity)
      else Inl ZeroDivisionError)"

fun py_abs :: "quotient \<Rightarrow> quotient" where
  "py_abs (Number (Py x)) = Number (Py \<bar>x\<bar>)"
| "py_abs (Number (Np x)) = Number (Np \<bar>x\<bar>)"
| "py_abs Infinity = Infinity"
| "py_abs Not_a_number = Not_a_number"

section \<open>The multistage program: probability model (msp.py)\<close>

text \<open>
  \<^verbatim>\<open>StochasticModel\<close> lives in \<^verbatim>\<open>msppy/sp.py\<close>; the sample-path code reads two of its
  attributes only: the number of outcomes \<^verbatim>\<open>n_samples\<close> and the optional outcome
  probabilities \<^verbatim>\<open>probability\<close> (\<^verbatim>\<open>None\<close> stands for the uniform measure).
\<close>

record StochasticModel =
  n_samples :: nat
  probability :: "real list option"

text \<open>
  \<^verbatim>\<open>self.models[t]\<close> is one model, or, once a Markov chain is attached, the list of the
  copies of the model, one per Markov state (\<^verbatim>\<open>_check_multistage_model\<close>).
\<close>

datatype stage_models = Single StochasticModel | PerState "StochasticModel list"

text \<open>
  \<^verbatim>\<open>self.n_Markov_states\<close> is the integer \<^verbatim>\<open>1\<close> set by the constructor, or the list of the
  numbers of Markov states per stage.
\<close>

datatype n_Markov = One | Stages "nat list"

datatype process_type = Stagewise_independent | Markov_chain | Markovian

text \<open>
  An attribute that the constructor does not create may be missing from an object; reading
  it then raises \<open>AttributeError\<close>. The constructor of \<^verbatim>\<open>MSLP\<close> in \<^verbatim>\<open>msp.py\<close> does not
  create \<^verbatim>\<open>n_periodical_stages\<close>, which \<^verbatim>\<open>_Evaluation.run\<close> reads.
\<close>

datatype 'a attribute = Missing | Present 'a

record MSLP =
  T :: nat
  sense :: int
  db :: "number option"
  n_periodical_stages :: "nat option attribute"
  type' :: process_type
  n_Markov_states :: n_Markov
  models :: "stage_models list"
  transition_matrix :: "real list list list"
  Markov_states :: "real list list list"

text \<open>
  A sample path: a tuple of outcome indices, or (mixed case) the pair of the tuple of
  outcome indices and the tuple of Markov-state indices.
\<close>

datatype sample_path = Indep "nat list" | Mixed "nat list" "nat list"

subsection \<open>\<^verbatim>\<open>_set_up_probability\<close>\<close>

text \<open>The given measure of a model, the uniform one when none is given.\<close>

definition model_probability :: "StochasticModel \<Rightarrow> real list" where
  "model_probability m =
     (case probability m of
        Some p \<Rightarrow> p
      | None \<Rightarrow> replicate (n_samples m) (1 / real (n_samples m)))"

datatype probability_table =
    Stagewise "real list list"
  | Statewise "real list list list"

definition single_model :: "stage_models \<Rightarrow> py_error + StochasticModel" where
  "single_model sm = (case sm of Single m \<Rightarrow> Inr m | PerState ms \<Rightarrow> Inl AttributeError)"

definition state_model :: "stage_models \<Rightarrow> nat \<Rightarrow> py_error + StochasticModel" where
  "state_model sm k = (case sm of Single m \<Rightarrow> Inl TypeError | PerState ms \<Rightarrow> getitem ms k)"

definition set_up_probability :: "MSLP \<Rightarrow> py_error + probability_table" where
  "set_up_probability M =
     (case n_Markov_states M of
        One \<Rightarrow>
          py_bind
            (py_map (\<lambda>t. py_bind (getitem (models M) t) (\<lambda>sm.
                          py_bind (single_model sm) (\<lambda>m. Inr (model_probability m))))
               [0..<T M])
            (\<lambda>p. Inr (Stagewise p))
      | Stages ns \<Rightarrow>
          py_bind (py_map (getitem ns) [0..<T M]) (\<lambda>sizes.
          py_bind
            (py_map (\<lambda>t. py_map (\<lambda>k. py_bind (getitem (models M) t) (\<lambda>sm.
                                       py_bind (state_model sm k) (\<lambda>m.
                                       Inr (model_probability m))))
                             [0..<sizes ! t])
               [0..<T M])
            (\<lambda>p. Inr (Statewise p))))"

subsection \<open>\<^verbatim>\<open>_enumerate_sample_paths\<close>\<close>

text \<open>
  \<^verbatim>\<open>itertools.product(*iterables)\<close> is \<^const>\<open>product_lists\<close> (the first component varies
  slowest) and \<^verbatim>\<open>itertools.product(a, b)\<close> is \<^const>\<open>List.product\<close>. The count is
  \<^verbatim>\<open>numpy.prod\<close> of the sizes; it is modelled without the 64-bit wrap-around, since the
  function returns only after the list of all paths has been built in memory.
\<close>

definition enumerate_sample_paths :: "MSLP \<Rightarrow> nat \<Rightarrow> py_error + (int \<times> sample_path list)" where
  "enumerate_sample_paths M h =
     (case n_Markov_states M of
        One \<Rightarrow>
          py_bind
            (py_map (\<lambda>t. py_bind (getitem (models M) t) (\<lambda>sm.
                          py_bind (single_model sm) (\<lambda>m. Inr (n_samples m))))
               [0..<h + 1])
            (\<lambda>ns. Inr (int (prod_list ns),
                        map Indep (product_lists (map (\<lambda>n. [0..<n]) ns))))
      | Stages nms \<Rightarrow>
          py_bind
            (py_map (\<lambda>t. py_bind (getitem (models M) t) (\<lambda>sm.
                          py_bind (state_model sm 0) (\<lambda>m. Inr (n_samples m))))
               [0..<h + 1])
            (\<lambda>ns.
          py_bind (py_map (getitem nms) [0..<h + 1]) (\<lambda>ks.
            Inr (int (prod_list nms) * int (prod_list ns),
                 map (\<lambda>(s, m). Mixed s m)
                   (List.product (product_lists (map (\<lambda>n. [0..<n]) ns))
                                 (product_lists (map (\<lambda>k. [0..<k]) ks)))))))"

subsection \<open>\<^verbatim>\<open>_compute_weight_sample_path\<close>\<close>

text \<open>
  The two products of the source, with every subscript a read that may raise. A path of the
  kind that the program does not enumerate raises: a pair where a tuple of indices is
  expected is used as an index (\<open>TypeError\<close>; the table has a first row, since the
  constructor guarantees \<open>2 \<le> T\<close>), and of a tuple of indices where a pair is expected the
  first entry has no length.
\<close>

definition compute_weight_sample_path :: "MSLP \<Rightarrow> sample_path \<Rightarrow> py_error + real" where
  "compute_weight_sample_path M sample_path =
     py_bind (set_up_probability M) (\<lambda>probability.
       case (probability, sample_path) of
         (Stagewise pr, Indep sp) \<Rightarrow>
           py_bind
             (py_map (\<lambda>t. py_bind (getitem pr t) (\<lambda>row.
                           py_bind (getitem sp t) (\<lambda>i. getitem row i)))
                [0..<length sp])
             (\<lambda>ws. Inr (prod_list ws))
       | (Stagewise pr, Mixed sp0 sp1) \<Rightarrow> Inl TypeError
       | (Statewise pr, Indep sp) \<Rightarrow> (if sp = [] then Inl IndexError else Inl TypeError)
       | (Statewise pr, Mixed sp0 sp1) \<Rightarrow>
           py_bind
             (py_map (\<lambda>t. py_bind (getitem (transition_matrix M) t) (\<lambda>mat.
                           py_bind (getitem sp1 (t - 1)) (\<lambda>i.
                           py_bind (getitem mat i) (\<lambda>row.
                           py_bind (getitem sp1 t) (\<lambda>j. getitem row j)))))
                [1..<length sp0])
             (\<lambda>tr.
           py_bind
             (py_map (\<lambda>t. py_bind (getitem pr t) (\<lambda>pt.
                           py_bind (getitem sp1 t) (\<lambda>k.
                           py_bind (getitem pt k) (\<lambda>row.
                           py_bind (getitem sp0 t) (\<lambda>i. getitem row i)))))
                [0..<length sp0])
             (\<lambda>ws. Inr (prod_list tr * prod_list ws))))"

section \<open>The evaluation engine (evaluation.py)\<close>

subsection \<open>Data\<close>

text \<open>
  \<^verbatim>\<open>self.gap\<close> is the absolute value of a quotient (a number, or numpy's \<^verbatim>\<open>inf\<close> or \<^verbatim>\<open>nan\<close>),
  or the string \<^verbatim>\<open>'nan'\<close>.
\<close>

datatype gap_value = Gap quotient | Gap_nan

datatype eval_class = Class_Evaluation_base | Class_Evaluation | Class_EvaluationTrue

text \<open>The solver object built by \<^verbatim>\<open>run\<close>: \<^verbatim>\<open>SDDP(MSP, reset=False)\<close> or \<^verbatim>\<open>SDDP_infinity(MSP, reset=False)\<close>.\<close>

datatype solver = SDDP MSLP | SDDP_infinity MSLP

text \<open>A two-dimensional numpy array: its number of columns and its rows.\<close>

record 'a matrix =
  n_cols :: nat
  rows :: "'a list list"

definition full :: "nat \<Rightarrow> nat \<Rightarrow> 'a \<Rightarrow> 'a matrix" where
  "full r c v = \<lparr>n_cols = c, rows = replicate r (replicate c v)\<rparr>"

text \<open>
  \<^verbatim>\<open>a[:, j] = v\<close>: the column index must exist, and \<open>v\<close> must have one entry per row or
  a single entry, which numpy broadcasts.
\<close>

definition set_column :: "'a matrix \<Rightarrow> nat \<Rightarrow> 'a list \<Rightarrow> py_error + 'a matrix" where
  "set_column m j v =
     (if n_cols m \<le> j then Inl IndexError
      else if length v = length (rows m)
        then Inr (m\<lparr>rows := map (\<lambda>(row, x). row[j := x]) (zip (rows m) v)\<rparr>)
      else if length v = 1
        then Inr (m\<lparr>rows := map (\<lambda>row. row[j := hd v]) (rows m)\<rparr>)
      else Inl ValueError)"

text \<open>The keyword arguments and the result dictionary of \<^verbatim>\<open>solver._forward\<close>.\<close>

record forward_args =
  arg_sample_path_idx :: "sample_path option"
  arg_markovian_idx :: "nat list option"
  arg_markovian_samples :: "real list list option"
  arg_solve_true :: bool
  arg_query :: "string list"
  arg_query_dual :: "string list"
  arg_query_stage_cost :: bool

record forward_result =
  res_pv :: number
  res_solution :: "string \<rightharpoonup> real list"
  res_solution_dual :: "string \<rightharpoonup> real list"
  res_stage_cost :: "real list"

text \<open>
  The attributes of an evaluation object. \<open>None\<close> is Python's \<^verbatim>\<open>None\<close>, except for
  \<open>n_simulations\<close>, \<open>solver\<close>, \<open>solution_dual\<close> and \<open>random_state\<close>, which the constructor does
  not create: there \<open>None\<close> is the missing attribute. An entry \<open>None\<close> of a solution table
  is numpy's \<^verbatim>\<open>nan\<close>, the mark of a cell that was never computed.
\<close>

record 'rs evaluation =
  cls :: eval_class
  MSP :: MSLP
  db :: "number option"
  pv :: "number list option"
  CI :: "(number \<times> number) option"
  epv :: "number option"
  gap :: "gap_value option"
  stage_cost :: "real matrix option"
  solution :: "(string \<rightharpoonup> real option matrix) option"
  solution_dual :: "(string \<rightharpoonup> real option matrix) option"
  n_sample_paths :: "int option"
  sample_path_idx :: "sample_path list option"
  markovian_idx :: "nat list list option"
  markovian_samples :: "real list list list option"
  solve_true :: bool
  n_simulations :: "int option"
  solver :: "solver option"
  query :: "string list"
  query_dual :: "string list"
  query_stage_cost :: bool
  random_state :: "'rs option"

text \<open>\<^verbatim>\<open>_Evaluation.__init__\<close>\<close>

definition init :: "eval_class \<Rightarrow> MSLP \<Rightarrow> 'rs evaluation" where
  "init c M =
     \<lparr>cls = c, MSP = M, db = MSLP.db M, pv = None, CI = None, epv = None, gap = None,
      stage_cost = None, solution = None, solution_dual = None, n_sample_paths = None,
      sample_path_idx = None, markovian_idx = None, markovian_samples = None,
      solve_true = False, n_simulations = None, solver = None, query = [], query_dual = [],
      query_stage_cost = False, random_state = None\<rparr>"

text \<open>
  The collaborators that are not part of the two files: the solver's forward step (it
  draws from the random state it is handed, so it returns the state it leaves), numpy's
  \<^verbatim>\<open>RandomState\<close> constructor, \<^verbatim>\<open>compute_CI\<close> and \<^verbatim>\<open>allocate_jobs\<close> of
  \<^verbatim>\<open>msppy.utils.statistics\<close>, the sample path generator \<^verbatim>\<open>MSP.Markovian_uncertainty\<close>, and the
  contents of the memory that \<^verbatim>\<open>numpy.empty\<close> hands out (by stage, row and column).
\<close>

record 'rs collaborators =
  forward :: "solver \<Rightarrow> 'rs \<Rightarrow> forward_args \<Rightarrow> py_error + (forward_result \<times> 'rs)"
  RandomState :: "int list \<Rightarrow> 'rs"
  compute_CI :: "number list \<Rightarrow> real \<Rightarrow> py_error + (number \<times> number)"
  allocate_jobs :: "int \<Rightarrow> int \<Rightarrow> py_error + nat list list"
  Markovian_uncertainty :: "'rs \<Rightarrow> int \<Rightarrow> py_error + (real list list list \<times> 'rs)"
  uninitialised :: "nat \<Rightarrow> nat \<Rightarrow> nat \<Rightarrow> real"

subsection \<open>\<^verbatim>\<open>_compute_gap\<close>\<close>

text \<open>
  The body of the \<^verbatim>\<open>try\<close> block. The operands of a subtraction are read before the
  division is attempted, so a missing per-path value or a missing bound raises its own
  error first.
\<close>

definition gap_expression :: "'rs evaluation \<Rightarrow> py_error + quotient" where
  "gap_expression e =
     (case CI e of
        Some ci \<Rightarrow>
          (case db e of
             None \<Rightarrow> Inl TypeError
           | Some d \<Rightarrow>
               if sense (MSP e) = 1
               then py_bind (py_div (py_sub (snd ci) d) d) (\<lambda>q. Inr (py_abs q))
               else py_bind (py_div (py_sub d (fst ci)) d) (\<lambda>q. Inr (py_abs q)))
      | None \<Rightarrow>
          (case epv e of
             Some v \<Rightarrow>
               (case db e of
                  None \<Rightarrow> Inl TypeError
                | Some d \<Rightarrow> py_bind (py_div (py_sub v d) d) (\<lambda>q. Inr (py_abs q)))
           | None \<Rightarrow>
               (case pv e of
                  None \<Rightarrow> Inl TypeError
                | Some [] \<Rightarrow> Inl IndexError
                | Some (v # vs) \<Rightarrow>
                    (case db e of
                       None \<Rightarrow> Inl TypeError
                     | Some d \<Rightarrow> py_bind (py_div (py_sub v d) d) (\<lambda>q. Inr (py_abs q))))))"

text \<open>
  The \<^verbatim>\<open>try\<close> statement: only \<^verbatim>\<open>ZeroDivisionError\<close> is caught, and it is raised only by a
  division between Python numbers.
\<close>

definition compute_gap :: "'rs evaluation \<Rightarrow> py_error + 'rs evaluation" where
  "compute_gap e =
     (case gap_expression e of
        Inr g \<Rightarrow> Inr (e\<lparr>gap := Some (Gap g)\<rparr>)
      | Inl err \<Rightarrow>
          if err = ZeroDivisionError then Inr (e\<lparr>gap := Some Gap_nan\<rparr>) else Inl err)"

subsection \<open>The Markov-state matcher of \<^verbatim>\<open>EvaluationTrue\<close>\<close>

text \<open>
  \<^verbatim>\<open>numpy.argmin\<close> scans from the left and replaces the best entry only by a strictly
  smaller one; an empty sequence raises.
\<close>

fun argmin_scan :: "real \<Rightarrow> nat \<Rightarrow> nat \<Rightarrow> real list \<Rightarrow> nat" where
  "argmin_scan mp mi i [] = mi"
| "argmin_scan mp mi i (x # xs) =
     (if x < mp then argmin_scan x i (Suc i) xs else argmin_scan mp mi (Suc i) xs)"

definition argmin :: "real list \<Rightarrow> py_error + nat" where
  "argmin xs = (case xs of [] \<Rightarrow> Inl ValueError | x # rest \<Rightarrow> Inr (argmin_scan x 0 1 rest))"

text \<open>
  \<^verbatim>\<open>row - markov_state\<close> for one row of the stage slice \<^verbatim>\<open>markovian_samples[:,t,:]\<close>: numpy
  broadcasts a vector of length one and rejects other unequal lengths.
\<close>

definition subtract_state :: "real list \<Rightarrow> real list \<Rightarrow> py_error + real list" where
  "subtract_state row markov_state =
     (if length row = length markov_state
        then Inr (map (\<lambda>(x, y). x - y) (zip row markov_state))
      else if length markov_state = 1 then Inr (map (\<lambda>x. x - hd markov_state) row)
      else if length row = 1 then Inr (map (\<lambda>y. hd row - y) markov_state)
      else Inl ValueError)"

text \<open>\<^verbatim>\<open>numpy.sum(temp**2, axis=1)\<close> for one row.\<close>

definition squared_distance :: "real list \<Rightarrow> real list \<Rightarrow> py_error + real" where
  "squared_distance row markov_state =
     py_bind (subtract_state row markov_state) (\<lambda>temp. Inr (sum_list (map (\<lambda>x. x\<^sup>2) temp)))"

text \<open>The loop over \<^verbatim>\<open>enumerate(MSP.Markov_states[t])\<close>, filling the columns of \<^verbatim>\<open>dist\<close>.\<close>

fun fill_dist ::
  "real list list list \<Rightarrow> nat \<Rightarrow> real matrix \<Rightarrow> nat \<Rightarrow> real list list \<Rightarrow> py_error + real matrix"
where
  "fill_dist samples t distances idx [] = Inr distances"
| "fill_dist samples t distances idx (markov_state # rest) =
     py_bind (py_map (\<lambda>trajectory. getitem trajectory t) samples) (\<lambda>slice.
     py_bind (py_map (\<lambda>row. squared_distance row markov_state) slice) (\<lambda>column.
     py_bind (set_column distances idx column) (\<lambda>distances'.
     fill_dist samples t distances' (Suc idx) rest)))"

text \<open>
  One round of the loop over the stages: \<^verbatim>\<open>dist\<close> starts as \<^verbatim>\<open>numpy.empty\<close>, is filled
  column by column, and the row-wise \<^verbatim>\<open>argmin\<close> becomes column \<open>t\<close> of \<^verbatim>\<open>markovian_idx\<close>.
\<close>

definition match_stage ::
  "'rs collaborators \<Rightarrow> MSLP \<Rightarrow> real list list list \<Rightarrow> nat \<Rightarrow> nat \<Rightarrow> nat matrix
     \<Rightarrow> py_error + nat matrix"
where
  "match_stage C M samples n t idx =
     py_bind (case n_Markov_states M of One \<Rightarrow> Inl TypeError | Stages ns \<Rightarrow> getitem ns t)
       (\<lambda>K.
     py_bind (getitem (Markov_states M) t) (\<lambda>states.
     py_bind
       (fill_dist samples t
          \<lparr>n_cols = K, rows = map (\<lambda>j. map (uninitialised C t j) [0..<K]) [0..<n]\<rparr> 0 states)
       (\<lambda>distances.
     py_bind (if n_cols distances = 0 then Inl ValueError else py_map argmin (rows distances))
       (\<lambda>ks.
     set_column idx t ks))))"

fun match_stages ::
  "'rs collaborators \<Rightarrow> MSLP \<Rightarrow> real list list list \<Rightarrow> nat \<Rightarrow> nat list \<Rightarrow> nat matrix
     \<Rightarrow> py_error + nat matrix"
where
  "match_stages C M samples n [] idx = Inr idx"
| "match_stages C M samples n (t # ts) idx =
     py_bind (match_stage C M samples n t idx) (match_stages C M samples n ts)"

subsection \<open>\<^verbatim>\<open>_compute_sample_path_idx_and_markovian_path\<close>\<close>

text \<open>
  The method of the class of the object: \<^verbatim>\<open>pass\<close> in the base class, the enumeration in
  \<^verbatim>\<open>Evaluation\<close>, the sampling and matching in \<^verbatim>\<open>EvaluationTrue\<close>. The constructor of
  \<^verbatim>\<open>MSLP\<close> guarantees \<open>2 \<le> T\<close>, so \<^verbatim>\<open>MSP.T-1\<close> is a stage.
\<close>

definition compute_sample_path_idx_and_markovian_path ::
  "'rs collaborators \<Rightarrow> 'rs evaluation \<Rightarrow> py_error + 'rs evaluation"
where
  "compute_sample_path_idx_and_markovian_path C e =
     (case cls e of
        Class_Evaluation_base \<Rightarrow> Inr e
      | Class_Evaluation \<Rightarrow>
          (case n_simulations e of
             None \<Rightarrow> Inl AttributeError
           | Some n \<Rightarrow>
               if n = - 1
               then py_bind (enumerate_sample_paths (MSP e) (T (MSP e) - 1)) (\<lambda>(c, paths).
                      Inr (e\<lparr>n_sample_paths := Some c, sample_path_idx := Some paths\<rparr>))
               else Inr (e\<lparr>n_sample_paths := Some n\<rparr>))
      | Class_EvaluationTrue \<Rightarrow>
          (case n_simulations e of
             None \<Rightarrow> Inl AttributeError
           | Some n \<Rightarrow>
               if type' (MSP e) = Markovian
               then
                 (case random_state e of
                    None \<Rightarrow> Inl AttributeError
                  | Some rs \<Rightarrow>
                      py_bind (Markovian_uncertainty C rs n) (\<lambda>(samples, rs').
                      if n < 0 then Inl ValueError
                      else
                        py_bind
                          (match_stages C (MSP e) samples (nat n) [1..<T (MSP e)]
                             (full (nat n) (T (MSP e)) 0))
                          (\<lambda>idx.
                        Inr (e\<lparr>n_sample_paths := Some n, solve_true := True,
                               markovian_samples := Some samples,
                               random_state := Some rs',
                               markovian_idx := Some (rows idx)\<rparr>))))
               else Inr (e\<lparr>n_sample_paths := Some n, solve_true := True\<rparr>)))"

subsection \<open>\<^verbatim>\<open>run_single\<close>\<close>

text \<open>
  A worker: the evaluation object it works on, the array \<^verbatim>\<open>pv\<close> it was handed, the random
  state it created, and (for the statements about what happens before any simulation) the
  list of the sample paths for which it has called the solver so far.
\<close>

record 'rs worker =
  self :: "'rs evaluation"
  shared_pv :: "number list"
  rng :: 'rs
  calls :: "nat list"

text \<open>
  A worker that raises leaves the cells of \<^verbatim>\<open>pv\<close> it has written and the calls it has made.
\<close>

type_synonym failure = "py_error \<times> number list \<times> nat list"

text \<open>\<^verbatim>\<open>xs[j] if xs is not None else None\<close>\<close>

definition entry_or_None :: "'a list option \<Rightarrow> nat \<Rightarrow> py_error + 'a option" where
  "entry_or_None xs j =
     (case xs of None \<Rightarrow> Inr None | Some ys \<Rightarrow> py_bind (getitem ys j) (\<lambda>y. Inr (Some y)))"

definition forward_arguments :: "'rs evaluation \<Rightarrow> nat \<Rightarrow> py_error + forward_args" where
  "forward_arguments e j =
     py_bind (entry_or_None (sample_path_idx e) j) (\<lambda>path.
     py_bind (entry_or_None (markovian_idx e) j) (\<lambda>states.
     py_bind (entry_or_None (markovian_samples e) j) (\<lambda>trajectory.
     Inr \<lparr>arg_sample_path_idx = path, arg_markovian_idx = states,
          arg_markovian_samples = trajectory, arg_solve_true = solve_true e,
          arg_query = query e, arg_query_dual = query_dual e,
          arg_query_stage_cost = query_stage_cost e\<rparr>)))"

text \<open>\<^verbatim>\<open>for item in names: table[item][:,j] = result[item]\<close>\<close>

fun store_columns ::
  "(string \<rightharpoonup> real option matrix) option \<Rightarrow> string list \<Rightarrow> (string \<rightharpoonup> real list) \<Rightarrow> nat
     \<Rightarrow> py_error + (string \<rightharpoonup> real option matrix) option"
where
  "store_columns tab [] res j = Inr tab"
| "store_columns tab (item # items) res j =
     (case res item of
        None \<Rightarrow> Inl KeyError
      | Some v \<Rightarrow>
          (case tab of
             None \<Rightarrow> Inl AttributeError
           | Some tb \<Rightarrow>
               (case tb item of
                  None \<Rightarrow> Inl KeyError
                | Some m \<Rightarrow>
                    py_bind (set_column m j (map Some v)) (\<lambda>m'.
                    store_columns (Some (tb(item \<mapsto> m'))) items res j))))"

definition store_result ::
  "'rs evaluation \<Rightarrow> forward_result \<Rightarrow> nat \<Rightarrow> py_error + 'rs evaluation"
where
  "store_result e result j =
     py_bind (store_columns (solution e) (query e) (res_solution result) j) (\<lambda>sol.
     py_bind (store_columns (solution_dual e) (query_dual e) (res_solution_dual result) j)
       (\<lambda>dual.
     py_bind
       (if query_stage_cost e
        then (case stage_cost e of
                None \<Rightarrow> Inl TypeError
              | Some m \<Rightarrow> py_bind (set_column m j (res_stage_cost result)) (\<lambda>m'. Inr (Some m')))
        else Inr (stage_cost e))
       (\<lambda>cost.
     Inr (e\<lparr>solution := sol, solution_dual := dual, stage_cost := cost\<rparr>))))"

text \<open>The body of the loop \<^verbatim>\<open>for j in jobs\<close>.\<close>

definition run_job :: "'rs collaborators \<Rightarrow> nat \<Rightarrow> 'rs worker \<Rightarrow> failure + 'rs worker" where
  "run_job C j w =
     (case forward_arguments (self w) j of
        Inl err \<Rightarrow> Inl (err, shared_pv w, calls w)
      | Inr args \<Rightarrow>
          (case solver (self w) of
             None \<Rightarrow> Inl (AttributeError, shared_pv w, calls w)
           | Some s \<Rightarrow>
               (case forward C s (rng w) args of
                  Inl err \<Rightarrow> Inl (err, shared_pv w, calls w @ [j])
                | Inr (result, rng') \<Rightarrow>
                    (case store_result (self w) result j of
                       Inl err \<Rightarrow> Inl (err, shared_pv w, calls w @ [j])
                     | Inr e' \<Rightarrow>
                         if j < length (shared_pv w)
                         then Inr \<lparr>self = e', shared_pv = (shared_pv w)[j := res_pv result],
                                   rng = rng', calls = calls w @ [j]\<rparr>
                         else Inl (IndexError, shared_pv w, calls w @ [j])))))"

fun run_jobs :: "'rs collaborators \<Rightarrow> nat list \<Rightarrow> 'rs worker \<Rightarrow> failure + 'rs worker" where
  "run_jobs C [] w = Inr w"
| "run_jobs C (j # js) w =
     (case run_job C j w of Inl f \<Rightarrow> Inl f | Inr w' \<Rightarrow> run_jobs C js w')"

text \<open>The seed array \<^verbatim>\<open>[2**32-1, jobs[0]]\<close>.\<close>

definition worker_seed :: "nat list \<Rightarrow> py_error + int list" where
  "worker_seed jobs = py_bind (getitem jobs 0) (\<lambda>first. Inr [2 ^ 32 - 1, int first])"

definition run_single ::
  "'rs collaborators \<Rightarrow> 'rs evaluation \<Rightarrow> number list \<Rightarrow> nat list \<Rightarrow> failure + 'rs worker"
where
  "run_single C e pv_array jobs =
     (case worker_seed jobs of
        Inl err \<Rightarrow> Inl (err, pv_array, [])
      | Inr seed \<Rightarrow>
          run_jobs C jobs
            \<lparr>self = e, shared_pv = pv_array, rng = RandomState C seed, calls = []\<rparr>)"

subsection \<open>\<^verbatim>\<open>_Evaluation.run\<close>\<close>

text \<open>
  The choice of the solver and of the number of stages \<open>T\<close> of the result tables. A given
  \<^verbatim>\<open>n_periodical_stages\<close> replaces the one of a periodical program.
\<close>

definition choose_solver :: "MSLP \<Rightarrow> nat option \<Rightarrow> py_error + (MSLP \<times> solver \<times> nat)" where
  "choose_solver M n_periodical =
     (case n_periodical_stages M of
        Missing \<Rightarrow> Inl AttributeError
      | Present None \<Rightarrow> Inr (M, SDDP M, T M)
      | Present (Some k) \<Rightarrow>
          (case n_periodical of
             None \<Rightarrow> Inr (M, SDDP_infinity M, k)
           | Some k' \<Rightarrow>
               Inr (M\<lparr>n_periodical_stages := Present (Some k')\<rparr>,
                    SDDP_infinity (M\<lparr>n_periodical_stages := Present (Some k')\<rparr>), k')))"

text \<open>The length accepted by \<^verbatim>\<open>numpy.zeros\<close>.\<close>

definition array_length :: "int option \<Rightarrow> py_error + nat" where
  "array_length n =
     (case n of
        None \<Rightarrow> Inl TypeError
      | Some k \<Rightarrow> if k < 0 then Inl ValueError else Inr (nat k))"

definition names :: "string list option \<Rightarrow> string list" where
  "names q = (case q of None \<Rightarrow> [] | Some xs \<Rightarrow> xs)"

text \<open>
  Everything between the guard and the simulation: solver, sample paths, and the result
  buffers (zeros for the values and the stage costs, \<^verbatim>\<open>nan\<close> for the queried tables).
\<close>

definition prepare ::
  "'rs collaborators \<Rightarrow> 'rs evaluation \<Rightarrow> int \<Rightarrow> string list option \<Rightarrow> string list option
     \<Rightarrow> bool \<Rightarrow> nat option \<Rightarrow> py_error + ('rs evaluation \<times> nat)"
where
  "prepare C e n_sims qry qry_dual qsc n_periodical =
     py_bind (choose_solver (MSP e) n_periodical) (\<lambda>(M, slv, horizon).
     py_bind
       (compute_sample_path_idx_and_markovian_path C
          (e\<lparr>MSP := M, solver := Some slv, n_simulations := Some n_sims\<rparr>))
       (\<lambda>e1.
     py_bind (array_length (n_sample_paths e1)) (\<lambda>n.
     Inr (e1\<lparr>pv := Some (replicate n (Np 0)),
             stage_cost := Some (full horizon n 0),
             solution := Some (map_of (map (\<lambda>item. (item, full horizon n None)) (names qry))),
             solution_dual :=
               Some (map_of (map (\<lambda>item. (item, full horizon n None)) (names qry_dual))),
             query := names qry, query_dual := names qry_dual,
             query_stage_cost := qsc\<rparr>, n))))"

text \<open>
  The worker processes. Each works on its own copy of the object and on the shared array;
  an exception in a worker ends that worker only, and the parent does not see it. The
  workers are run one after the other, which is one of the possible schedules; when the job
  lists are disjoint every schedule writes the same array.
\<close>

fun run_workers ::
  "'rs collaborators \<Rightarrow> 'rs evaluation \<Rightarrow> nat list list \<Rightarrow> nat list \<Rightarrow> number list \<Rightarrow> nat list
     \<Rightarrow> (py_error \<times> nat list) + (number list \<times> nat list)"
where
  "run_workers C e jobs [] pv_array made = Inr (pv_array, made)"
| "run_workers C e jobs (p # ps) pv_array made =
     (case getitem jobs p of
        Inl err \<Rightarrow> Inl (err, made)
      | Inr js \<Rightarrow>
          (case run_single C e pv_array js of
             Inl (err, pv_array', cs) \<Rightarrow> run_workers C e jobs ps pv_array' (made @ cs)
           | Inr w \<Rightarrow> run_workers C e jobs ps (shared_pv w) (made @ calls w)))"

text \<open>
  The items of a \<^verbatim>\<open>multiprocessing.Array("d", ...)\<close>: the array stores C doubles, and an
  item read from it is a Python \<^verbatim>\<open>float\<close>, whatever was written.
\<close>

definition array_items :: "number list \<Rightarrow> number list" where
  "array_items xs = map (\<lambda>x. Py (value_of x)) xs"

text \<open>
  The simulation, in worker processes or in the calling process. The second component of a
  result is the local variable \<^verbatim>\<open>pv\<close> of \<^verbatim>\<open>run\<close>, which only the first branch binds (to the
  shared array, given here by its items).
\<close>

definition simulate ::
  "'rs collaborators \<Rightarrow> 'rs evaluation \<Rightarrow> nat \<Rightarrow> int
     \<Rightarrow> (py_error + ('rs evaluation \<times> number list option)) \<times> nat list"
where
  "simulate C e n n_processes =
     (if n_processes \<noteq> 1
      then
        (case allocate_jobs C (int n) n_processes of
           Inl err \<Rightarrow> (Inl err, [])
         | Inr jobs \<Rightarrow>
             (case run_workers C e jobs [0..<nat n_processes] (replicate n (Py 0)) [] of
                Inl (err, made) \<Rightarrow> (Inl err, made)
              | Inr (pv_array, made) \<Rightarrow>
                  (Inr (e\<lparr>pv := Some (array_items pv_array)\<rparr>, Some (array_items pv_array)),
                   made)))
      else
        (case run_single C (e\<lparr>pv := Some (replicate n (Py 0))\<rparr>) (replicate n (Py 0)) [0..<n] of
           Inl (err, pv_array, made) \<Rightarrow> (Inl err, made)
         | Inr w \<Rightarrow> (Inr ((self w)\<lparr>pv := Some (shared_pv w)\<rparr>, None), calls w)))"

text \<open>
  \<^verbatim>\<open>numpy.dot(pv, [MSP._compute_weight_sample_path(self.sample_path_idx[j]) for j in ...])\<close>:
  the name \<^verbatim>\<open>pv\<close> is read first. The result of \<^verbatim>\<open>numpy.dot\<close> is a numpy scalar.
\<close>

definition expected_policy_value ::
  "'rs evaluation \<Rightarrow> number list option \<Rightarrow> py_error + number"
where
  "expected_policy_value e pv_local =
     (case pv_local of
        None \<Rightarrow> Inl UnboundLocalError
      | Some pv_array \<Rightarrow>
          py_bind (array_length (n_sample_paths e)) (\<lambda>n.
          py_bind
            (py_map (\<lambda>j. py_bind (case sample_path_idx e of
                                     None \<Rightarrow> Inl TypeError
                                   | Some paths \<Rightarrow> getitem paths j)
                            (compute_weight_sample_path (MSP e)))
               [0..<n])
            (\<lambda>weights.
          if length pv_array = length weights
          then Inr (Np (sum_list (map (\<lambda>(v, w). value_of v * w) (zip pv_array weights))))
          else Inl ValueError)))"

text \<open>The statements after the simulation: exact value, interval, gap.\<close>

definition aggregate ::
  "'rs collaborators \<Rightarrow> 'rs evaluation \<Rightarrow> number list option \<Rightarrow> real
     \<Rightarrow> py_error + 'rs evaluation"
where
  "aggregate C e pv_local percentile =
     py_bind
       (if n_simulations e = Some (- 1)
        then py_bind (expected_policy_value e pv_local) (\<lambda>v. Inr (e\<lparr>epv := Some v\<rparr>))
        else Inr e)
       (\<lambda>e1.
     py_bind
       (if n_simulations e1 \<noteq> Some (- 1) \<and> n_simulations e1 \<noteq> Some 1
        then (case pv e1 of
                None \<Rightarrow> Inl TypeError
              | Some values \<Rightarrow>
                  py_bind (compute_CI C values percentile) (\<lambda>ci. Inr (e1\<lparr>CI := Some ci\<rparr>)))
        else Inr e1)
       compute_gap)"

text \<open>
  \<^verbatim>\<open>run\<close>. The result is the exception or the final object, paired with the list of the
  sample paths for which the solver was called. \<^verbatim>\<open>EvaluationTrue.run\<close> calls this same
  function in both of its branches (after undoing the binarisation of an \<^verbatim>\<open>MSIP\<close>, which
  changes solver-side attributes only), on an object of class \<open>Class_EvaluationTrue\<close>.
\<close>

definition run ::
  "'rs collaborators \<Rightarrow> 'rs evaluation \<Rightarrow> int \<Rightarrow> real \<Rightarrow> string list option
     \<Rightarrow> string list option \<Rightarrow> bool \<Rightarrow> nat option \<Rightarrow> int
     \<Rightarrow> (py_error + 'rs evaluation) \<times> nat list"
where
  "run C e n_sims percentile qry qry_dual qsc n_periodical n_processes =
     (if n_processes \<noteq> 1 \<and> (qry \<noteq> None \<or> qry_dual \<noteq> None \<or> qsc)
      then (Inl NotImplementedError, [])
      else
        (case prepare C e n_sims qry qry_dual qsc n_periodical of
           Inl err \<Rightarrow> (Inl err, [])
         | Inr (e1, n) \<Rightarrow>
             (case simulate C e1 n n_processes of
                (Inl err, made) \<Rightarrow> (Inl err, made)
              | (Inr (e2, pv_local), made) \<Rightarrow> (aggregate C e2 pv_local percentile, made))))"

section \<open>The specification's notions\<close>

text \<open>
  The quantities in which the specification states the properties of the sample-path model.
  They follow the words of the specification and are compared with the functions above.
\<close>

text \<open>The model of stage \<open>t\<close> (under Markov state \<open>k\<close>, where the stage has one model per state).\<close>

definition stage_model :: "MSLP \<Rightarrow> nat \<Rightarrow> nat \<Rightarrow> StochasticModel" where
  "stage_model M t k = (case models M ! t of Single m \<Rightarrow> m | PerState ms \<Rightarrow> ms ! k)"

text \<open>
  \<open>probabilityOf(t, outcomeIndex, markovIndex)\<close>: the per-stage outcome probability,
  uniform when none is given.
\<close>

definition probabilityOf :: "MSLP \<Rightarrow> nat \<Rightarrow> nat \<Rightarrow> nat \<Rightarrow> real" where
  "probabilityOf M t i k =
     (case probability (stage_model M t k) of
        Some p \<Rightarrow> p ! i
      | None \<Rightarrow> 1 / real (n_samples (stage_model M t k)))"

text \<open>
  \<open>weightOf(path)\<close>: the product of the stage-wise outcome probabilities; in the mixed case
  the product of the transition probabilities along the Markov-state sequence times the
  product of the outcome probabilities conditional on the Markov state.
\<close>

fun weightOf :: "MSLP \<Rightarrow> sample_path \<Rightarrow> real" where
  "weightOf M (Indep s) = (\<Prod>t<length s. probabilityOf M t (s ! t) 0)"
| "weightOf M (Mixed s m) =
     (\<Prod>t\<in>{1..<length s}. transition_matrix M ! t ! (m ! (t - 1)) ! (m ! t))
     * (\<Prod>t<length s. probabilityOf M t (s ! t) (m ! t))"

text \<open>The number of outcomes and of Markov states of a stage.\<close>

definition outcome_count :: "MSLP \<Rightarrow> nat \<Rightarrow> nat" where
  "outcome_count M t = n_samples (stage_model M t 0)"

definition state_count :: "MSLP \<Rightarrow> nat \<Rightarrow> nat" where
  "state_count M t = (case n_Markov_states M of One \<Rightarrow> 1 | Stages ns \<Rightarrow> ns ! t)"

text \<open>The squared Euclidean distance of two vectors of the same dimension.\<close>

definition squared_euclidean :: "real list \<Rightarrow> real list \<Rightarrow> real" where
  "squared_euclidean x y = (\<Sum>i<length x. (x ! i - y ! i)\<^sup>2)"

subsection \<open>Well-formed programs\<close>

text \<open>
  The invariants of the data model: a stage model has at least one outcome and its
  probabilities, when given, are one per outcome and sum to one.
\<close>

definition model_ok :: "StochasticModel \<Rightarrow> bool" where
  "model_ok m =
     (0 < n_samples m \<and>
      (case probability m of None \<Rightarrow> True | Some p \<Rightarrow> length p = n_samples m \<and> sum_list p = 1))"

text \<open>A stage-wise independent program: one well-formed model per stage.\<close>

definition wf_independent :: "MSLP \<Rightarrow> bool" where
  "wf_independent M =
     (n_Markov_states M = One \<and> length (models M) = T M \<and>
      list_all (\<lambda>sm. case sm of Single m \<Rightarrow> model_ok m | PerState ms \<Rightarrow> False) (models M))"

text \<open>
  A program with a Markov chain: one state at stage \<open>0\<close>; at every stage one well-formed
  model per Markov state, all with the same number of outcomes; for \<open>t \<ge> 1\<close> a transition
  matrix with one row per state of stage \<open>t - 1\<close>, one column per state of stage \<open>t\<close>, and
  rows that sum to one.
\<close>

definition wf_Markov :: "MSLP \<Rightarrow> bool" where
  "wf_Markov M =
     (case n_Markov_states M of
        One \<Rightarrow> False
      | Stages ns \<Rightarrow>
          0 < T M \<and> length ns = T M \<and> length (models M) = T M \<and>
          length (transition_matrix M) = T M \<and> ns ! 0 = 1 \<and>
          list_all
            (\<lambda>t. case models M ! t of
                   Single m \<Rightarrow> False
                 | PerState ms \<Rightarrow>
                     length ms = ns ! t \<and> ms \<noteq> [] \<and>
                     list_all (\<lambda>m. model_ok m \<and> n_samples m = n_samples (ms ! 0)) ms)
            [0..<T M] \<and>
          list_all
            (\<lambda>t. length (transition_matrix M ! t) = ns ! (t - 1) \<and>
                 list_all (\<lambda>row. length row = ns ! t \<and> sum_list row = 1)
                   (transition_matrix M ! t))
            [1..<T M])"

text \<open>A path whose indices exist: what the enumeration produces, up to any horizon.\<close>

fun path_in_range :: "MSLP \<Rightarrow> sample_path \<Rightarrow> bool" where
  "path_in_range M (Indep s) =
     (length s \<le> T M \<and> list_all (\<lambda>t. s ! t < outcome_count M t) [0..<length s])"
| "path_in_range M (Mixed s m) =
     (length s \<le> T M \<and> length m = length s \<and>
      list_all (\<lambda>t. m ! t < state_count M t \<and> s ! t < outcome_count M t) [0..<length s])"

text \<open>
  The input of the matcher: \<open>n\<close> trajectories of \<open>T\<close> stages and dimension \<open>d\<close>, and for
  every stage \<open>t \<ge> 1\<close> as many Markov states of dimension \<open>d\<close> as \<^verbatim>\<open>n_Markov_states[t]\<close>
  says, at least one.
\<close>

definition trajectories_ok :: "real list list list \<Rightarrow> nat \<Rightarrow> nat \<Rightarrow> nat \<Rightarrow> bool" where
  "trajectories_ok samples n horizon d =
     (length samples = n \<and>
      list_all (\<lambda>trajectory. length trajectory = horizon \<and>
                  list_all (\<lambda>row. length row = d) trajectory) samples)"

definition Markov_states_ok :: "MSLP \<Rightarrow> nat \<Rightarrow> bool" where
  "Markov_states_ok M d =
     (case n_Markov_states M of
        One \<Rightarrow> False
      | Stages ns \<Rightarrow>
          T M \<le> length ns \<and> T M \<le> length (Markov_states M) \<and>
          list_all
            (\<lambda>t. length (Markov_states M ! t) = ns ! t \<and> 0 < ns ! t \<and>
                 list_all (\<lambda>state. length state = d) (Markov_states M ! t))
            [1..<T M])"

text \<open>The index that \<^verbatim>\<open>numpy.argmin\<close> returns on a non-empty row of distances.\<close>

definition first_minimum :: "real list \<Rightarrow> nat" where
  "first_minimum xs = argmin_scan (hd xs) 0 1 (tl xs)"

text \<open>The matched state of path \<open>j\<close> at stage \<open>t\<close>.\<close>

definition nearest_state :: "MSLP \<Rightarrow> real list list list \<Rightarrow> nat \<Rightarrow> nat \<Rightarrow> nat" where
  "nearest_state M samples j t =
     first_minimum (map (squared_euclidean (samples ! j ! t)) (Markov_states M ! t))"

text \<open>\<open>MarkovState(t, k)\<close>: the \<open>k\<close>-th representative state of stage \<open>t\<close>.\<close>

definition MarkovState :: "MSLP \<Rightarrow> nat \<Rightarrow> nat \<Rightarrow> real list" where
  "MarkovState M t k = Markov_states M ! t ! k"

subsection \<open>Shapes kept by the loops of the matcher\<close>

text \<open>
  The array of matched indices has one row per path and one column per stage; its column
  \<open>0\<close> holds zeros.
\<close>

definition stage0_zero :: "nat \<Rightarrow> nat \<Rightarrow> nat matrix \<Rightarrow> bool" where
  "stage0_zero n horizon idx =
     (length (rows idx) = n \<and> (\<forall>i<n. length (rows idx ! i) = horizon \<and> rows idx ! i ! 0 = 0))"

definition index_shape :: "nat \<Rightarrow> nat \<Rightarrow> nat matrix \<Rightarrow> bool" where
  "index_shape n horizon idx =
     (n_cols idx = horizon \<and> length (rows idx) = n \<and>
      (\<forall>j<n. length (rows idx ! j) = horizon))"

text \<open>What the matcher needs of one stage: its Markov states, as many as declared, of dimension \<open>d\<close>.\<close>

definition stage_ok :: "MSLP \<Rightarrow> nat \<Rightarrow> nat \<Rightarrow> bool" where
  "stage_ok M d t =
     (case n_Markov_states M of
        One \<Rightarrow> False
      | Stages ns \<Rightarrow>
          t < length ns \<and> t < length (Markov_states M) \<and>
          length (Markov_states M ! t) = ns ! t \<and> 0 < ns ! t \<and>
          (\<forall>state\<in>set (Markov_states M ! t). length state = d))"

section \<open>Example programs and collaborators\<close>

text \<open>
  The three-stage Markov chain of the specification's example: one state at stage \<open>0\<close>, two
  at stages \<open>1\<close> and \<open>2\<close>, one outcome per state, known bound \<open>2\<close>.
\<close>

definition unit_model :: StochasticModel where
  "unit_model = \<lparr>n_samples = 1, probability = None\<rparr>"

definition example_chain :: MSLP where
  "example_chain =
     \<lparr>T = 3, sense = 1, db = Some (Py 2), n_periodical_stages = Present None,
      type' = Markov_chain, n_Markov_states = Stages [1, 2, 2],
      models = [PerState [unit_model], PerState [unit_model, unit_model],
                PerState [unit_model, unit_model]],
      transition_matrix = [[[1]], [[3 / 10, 7 / 10]], [[6 / 10, 4 / 10], [2 / 10, 8 / 10]]],
      Markov_states = [[[2 / 10]], [[3 / 10], [5 / 10]], [[4 / 10], [6 / 10]]]\<rparr>"

text \<open>A two-stage independent program: two outcomes of probability 1/4 and 3/4 at stage 1.\<close>

definition example_independent :: MSLP where
  "example_independent =
     \<lparr>T = 2, sense = 1, db = Some (Py 0), n_periodical_stages = Present None,
      type' = Stagewise_independent, n_Markov_states = One,
      models = [Single unit_model, Single \<lparr>n_samples = 2, probability = Some [1 / 4, 3 / 4]\<rparr>],
      transition_matrix = [], Markov_states = []\<rparr>"

text \<open>
  A discretised continuous process of dimension one; in \<open>example_duplicate\<close> the two Markov
  states of stage \<open>1\<close> are the same vector.
\<close>

definition example_Markovian :: MSLP where
  "example_Markovian =
     \<lparr>T = 3, sense = 1, db = Some (Py 2), n_periodical_stages = Present None,
      type' = Markovian, n_Markov_states = Stages [1, 2, 2],
      models = [PerState [unit_model], PerState [unit_model, unit_model],
                PerState [unit_model, unit_model]],
      transition_matrix = [[[1]], [[1 / 2, 1 / 2]], [[1 / 2, 1 / 2], [1 / 2, 1 / 2]]],
      Markov_states = [[[0]], [[0], [1]], [[1], [3]]]\<rparr>"

definition example_duplicate :: MSLP where
  "example_duplicate = example_Markovian\<lparr>Markov_states := [[[0]], [[1], [1]], [[1], [3]]]\<rparr>"

text \<open>
  Job lists as the specification describes them: contiguous near-equal shares, the
  remainder going to the earliest workers.
\<close>

definition example_allocate_jobs :: "int \<Rightarrow> int \<Rightarrow> py_error + nat list list" where
  "example_allocate_jobs n k =
     (if k \<le> 0 \<or> n < 0 then Inl ValueError
      else Inr (map (\<lambda>p. [p * (nat n div nat k) + min p (nat n mod nat k) ..<
                            Suc p * (nat n div nat k) + min (Suc p) (nat n mod nat k)])
                  [0..<nat k]))"

text \<open>
  A solver whose policy value is a Python number read off the path it is handed, and which
  draws one number from the random state per call; a generator that returns the same
  trajectory for every path; an interval routine that rejects a percentile outside
  \<open>(0, 100)\<close> and returns numpy scalars; the random state is the seed and the number of draws.
\<close>

definition example_forward ::
  "solver \<Rightarrow> int list \<times> nat \<Rightarrow> forward_args \<Rightarrow> py_error + (forward_result \<times> (int list \<times> nat))"
where
  "example_forward s rs args =
     Inr (\<lparr>res_pv = Py (case arg_sample_path_idx args of
                           None \<Rightarrow> 1
                         | Some (Indep sp) \<Rightarrow> real (sum_list sp)
                         | Some (Mixed sp0 sp1) \<Rightarrow> real (sum_list sp1)),
           res_solution = (\<lambda>name. Some [1, 2, 3]),
           res_solution_dual = (\<lambda>name. Some [0, 0, 0]),
           res_stage_cost = [1, 1, 1]\<rparr>,
          (fst rs, Suc (snd rs)))"

definition example_compute_CI :: "number list \<Rightarrow> real \<Rightarrow> py_error + (number \<times> number)" where
  "example_compute_CI values percentile =
     (if 0 < percentile \<and> percentile < 100
      then Inr (Np (sum_list (map value_of values) / real (length values) - 1),
                Np (sum_list (map value_of values) / real (length values) + 1))
      else Inl ValueError)"

definition example_collaborators :: "(int list \<times> nat) collaborators" where
  "example_collaborators =
     \<lparr>forward = example_forward,
      RandomState = (\<lambda>seed. (seed, 0)),
      compute_CI = example_compute_CI,
      allocate_jobs = example_allocate_jobs,
      Markovian_uncertainty =
        (\<lambda>rs n. Inr (replicate (nat n) [[0], [1], [2]], (fst rs, Suc (snd rs)))),
      uninitialised = (\<lambda>t j k. 0)\<rparr>"

text \<open>An evaluation of the true problem on the discretised process, two simulations.\<close>

definition example_evaluation :: "(int list \<times> nat) evaluation" where
  "example_evaluation =
     (init Class_EvaluationTrue example_Markovian)
       \<lparr>n_simulations := Some 2, random_state := Some ([7], 0)\<rparr>"

section \<open>Basic facts about the error plumbing\<close>

lemma py_bind_Inl [simp]: "py_bind (Inl err) f = Inl err"
  by (simp add: py_bind_def)

lemma py_bind_Inr [simp]: "py_bind (Inr x) f = f x"
  by (simp add: py_bind_def)

lemma py_bind_eq_Inr:
  "py_bind r f = Inr y \<longleftrightarrow> (\<exists>x. r = Inr x \<and> f x = Inr y)"
  by (cases r) simp_all

section \<open>The guard of \<^verbatim>\<open>run\<close>\<close>

text \<open>
  Claim C7. A call of \<^verbatim>\<open>run\<close> with more than one worker and a non-empty query set, a
  non-empty dual-query set or stage-cost querying fails at once with the exception of the
  guard (\<^verbatim>\<open>NotImplementedError\<close>, the unsupported combination), and the solver has been
  called for no sample path.
\<close>

theorem run_rejects_queries_with_workers:
  assumes "1 < n_processes"
    and "(\<exists>q. qry = Some q \<and> q \<noteq> []) \<or> (\<exists>q. qry_dual = Some q \<and> q \<noteq> []) \<or> qsc"
  shows "run C e n_sims percentile qry qry_dual qsc n_periodical n_processes
           = (Inl NotImplementedError, [])"
  using assms by (auto simp: run_def)

theorem run_rejects_queries_with_workers_witness:
  "run example_collaborators (init Class_Evaluation example_chain) 10 95
      (Some [''x'']) None False None 2 = (Inl NotImplementedError, [])
   \<and> run example_collaborators (init Class_Evaluation example_chain) 10 95
      None (Some [''c'']) False None 3 = (Inl NotImplementedError, [])
   \<and> run example_collaborators (init Class_Evaluation example_chain) (- 1) 95
      None None True None 4 = (Inl NotImplementedError, [])"
  using run_rejects_queries_with_workers [of 2 "Some [''x'']" None False example_collaborators
          "init Class_Evaluation example_chain" 10 95 None]
        run_rejects_queries_with_workers [of 3 None "Some [''c'']" False example_collaborators
          "init Class_Evaluation example_chain" 10 95 None]
        run_rejects_queries_with_workers [of 4 None None True example_collaborators
          "init Class_Evaluation example_chain" "- 1" 95 None]
  by simp

section \<open>The gap at a zero bound\<close>

lemma py_div_zero:
  "value_of d = 0 \<Longrightarrow>
     py_div a d =
       (if is_numpy a \<or> is_numpy d
        then Inr (if value_of a = 0 then Not_a_number else Infinity)
        else Inl ZeroDivisionError)"
  by (simp add: py_div_def)

lemma py_sub_kind [simp]:
  "is_numpy (py_sub a b) \<longleftrightarrow> is_numpy a \<or> is_numpy b"
  "value_of (py_sub a b) = value_of a - value_of b"
  by (simp_all add: py_sub_def arith_def)

lemma gap_of_zero_bound:
  assumes "value_of d = 0" and "value_of n = 0 \<longleftrightarrow> value_of x = 0"
    and "is_numpy n \<or> is_numpy d \<longleftrightarrow> is_numpy x \<or> is_numpy d"
  shows "(case py_bind (py_div n d) (\<lambda>q. Inr (py_abs q)) of
            Inr g \<Rightarrow> Inr (e\<lparr>gap := Some (Gap g)\<rparr>)
          | Inl err \<Rightarrow>
              if err = ZeroDivisionError then Inr (e\<lparr>gap := Some Gap_nan\<rparr>) else Inl err)
         = Inr (e\<lparr>gap := Some (if is_numpy x \<or> is_numpy d
                                 then Gap (if value_of x = 0 then Not_a_number else Infinity)
                                 else Gap_nan)\<rparr>)"
  using assms by (simp add: py_div_zero)

text \<open>
  Claim C2. What \<^verbatim>\<open>_compute_gap\<close> does at a deterministic bound equal to zero, for either
  optimisation sense. When the value in effect (the end of the interval, the exact expected
  value, or the first per-path value) and the bound are Python numbers, the division
  raises, the exception is caught and the gap is the sentinel \<^verbatim>\<open>'nan'\<close>. When one of them is
  a numpy scalar, as the exact expected value always is, nothing is raised and the gap is
  numpy's \<^verbatim>\<open>inf\<close>, or numpy's \<^verbatim>\<open>nan\<close> when the value is zero too: not the sentinel. When
  there is neither an interval nor an exact expected value nor a first per-path value, the
  read of \<^verbatim>\<open>self.pv[0]\<close> raises an exception that is not caught.
\<close>

theorem compute_gap_zero_bound:
  assumes "db e = Some d" and "value_of d = 0"
  shows "(let sentinel_or = (\<lambda>x. if is_numpy x \<or> is_numpy d
                                  then Gap (if value_of x = 0 then Not_a_number else Infinity)
                                  else Gap_nan)
          in (\<forall>l u. CI e = Some (l, u) \<longrightarrow>
                compute_gap e
                  = Inr (e\<lparr>gap := Some (sentinel_or (if sense (MSP e) = 1 then u else l))\<rparr>))
           \<and> (\<forall>v. CI e = None \<and> epv e = Some v \<longrightarrow>
                compute_gap e = Inr (e\<lparr>gap := Some (sentinel_or v)\<rparr>))
           \<and> (\<forall>v vs. CI e = None \<and> epv e = None \<and> pv e = Some (v # vs) \<longrightarrow>
                compute_gap e = Inr (e\<lparr>gap := Some (sentinel_or v)\<rparr>))
           \<and> (CI e = None \<and> epv e = None \<and> pv e = Some [] \<longrightarrow>
                compute_gap e = Inl IndexError)
           \<and> (CI e = None \<and> epv e = None \<and> pv e = None \<longrightarrow>
                compute_gap e = Inl TypeError))"
  unfolding Let_def
proof (intro conjI allI impI)
  fix l u
  assume ci: "CI e = Some (l, u)"
  show "compute_gap e
          = Inr (e\<lparr>gap := Some (if is_numpy (if sense (MSP e) = 1 then u else l) \<or> is_numpy d
                                 then Gap (if value_of (if sense (MSP e) = 1 then u else l) = 0
                                           then Not_a_number else Infinity)
                                 else Gap_nan)\<rparr>)"
  proof (cases "sense (MSP e) = 1")
    case True
    with ci assms(1) gap_of_zero_bound [of d "py_sub u d" u e] assms(2)
    show ?thesis by (simp add: compute_gap_def gap_expression_def)
  next
    case False
    with ci assms(1) gap_of_zero_bound [of d "py_sub d l" l e] assms(2)
    show ?thesis by (auto simp: compute_gap_def gap_expression_def)
  qed
next
  fix v
  assume "CI e = None \<and> epv e = Some v"
  with assms(1) gap_of_zero_bound [of d "py_sub v d" v e] assms(2)
  show "compute_gap e
          = Inr (e\<lparr>gap := Some (if is_numpy v \<or> is_numpy d
                                 then Gap (if value_of v = 0 then Not_a_number else Infinity)
                                 else Gap_nan)\<rparr>)"
    by (simp add: compute_gap_def gap_expression_def)
next
  fix v vs
  assume "CI e = None \<and> epv e = None \<and> pv e = Some (v # vs)"
  with assms(1) gap_of_zero_bound [of d "py_sub v d" v e] assms(2)
  show "compute_gap e
          = Inr (e\<lparr>gap := Some (if is_numpy v \<or> is_numpy d
                                 then Gap (if value_of v = 0 then Not_a_number else Infinity)
                                 else Gap_nan)\<rparr>)"
    by (simp add: compute_gap_def gap_expression_def)
next
  assume "CI e = None \<and> epv e = None \<and> pv e = Some []"
  then show "compute_gap e = Inl IndexError"
    by (simp add: compute_gap_def gap_expression_def)
next
  assume "CI e = None \<and> epv e = None \<and> pv e = None"
  then show "compute_gap e = Inl TypeError"
    by (simp add: compute_gap_def gap_expression_def)
qed

text \<open>
  Instances: an exact expected value, which is a numpy scalar, gives \<^verbatim>\<open>inf\<close>; a Python
  first per-path value gives the sentinel; a numpy interval gives \<^verbatim>\<open>inf\<close>; a freshly
  constructed object raises. The exhaustive run with two workers on the two-stage program of
  bound zero ends with the exact expected value \<open>3/4\<close> and the gap \<^verbatim>\<open>inf\<close>.
\<close>

theorem compute_gap_zero_bound_witness:
  "compute_gap ((init Class_Evaluation example_independent)\<lparr>epv := Some (Np 5)\<rparr>
       :: unit evaluation)
     = Inr ((init Class_Evaluation example_independent)
              \<lparr>epv := Some (Np 5), gap := Some (Gap Infinity)\<rparr>)
   \<and> compute_gap ((init Class_Evaluation example_independent)\<lparr>pv := Some [Py 4]\<rparr>
       :: unit evaluation)
     = Inr ((init Class_Evaluation example_independent)\<lparr>pv := Some [Py 4], gap := Some Gap_nan\<rparr>)
   \<and> compute_gap ((init Class_Evaluation example_independent)\<lparr>CI := Some (Np 1, Np 3)\<rparr>
       :: unit evaluation)
     = Inr ((init Class_Evaluation example_independent)
              \<lparr>CI := Some (Np 1, Np 3), gap := Some (Gap Infinity)\<rparr>)
   \<and> compute_gap (init Class_Evaluation example_independent :: unit evaluation) = Inl TypeError
   \<and> map_prod (map_sum id (\<lambda>e'. (epv e', gap e'))) id
       (run example_collaborators (init Class_Evaluation example_independent) (- 1) 95
          None None False None 2)
     = (Inr (Some (Np (3 / 4)), Some (Gap Infinity)), [0, 1])"
proof -
  have run: "map_prod (map_sum id (\<lambda>e'. (epv e', gap e'))) id
       (run example_collaborators (init Class_Evaluation example_independent) (- 1) 95
          None None False None 2)
     = (Inr (Some (Np (3 / 4)), Some (Gap Infinity)), [0, 1])"
    by code_simp
  have db: "db (init Class_Evaluation example_independent :: unit evaluation) = Some (Py 0)"
    by (simp add: init_def example_independent_def)
  have z: "value_of (Py 0) = 0" by simp
  from compute_gap_zero_bound
         [of "(init Class_Evaluation example_independent)\<lparr>epv := Some (Np 5)\<rparr> :: unit evaluation"
             "Py 0"]
       compute_gap_zero_bound
         [of "(init Class_Evaluation example_independent)\<lparr>pv := Some [Py 4]\<rparr> :: unit evaluation"
             "Py 0"]
       compute_gap_zero_bound
         [of "(init Class_Evaluation example_independent)\<lparr>CI := Some (Np 1, Np 3)\<rparr>
                :: unit evaluation" "Py 0"]
       compute_gap_zero_bound
         [of "init Class_Evaluation example_independent :: unit evaluation" "Py 0"]
       run
  show ?thesis by (simp add: init_def example_independent_def Let_def)
qed

section \<open>What \<^verbatim>\<open>run\<close> leaves unchanged\<close>

lemma store_result_frame:
  assumes "store_result e result j = Inr e'"
  shows "CI e' = CI e \<and> n_simulations e' = n_simulations e"
proof -
  from assms obtain sol dual cost where
    "e' = e\<lparr>solution := sol, solution_dual := dual, stage_cost := cost\<rparr>"
    unfolding store_result_def py_bind_eq_Inr by blast
  then show ?thesis by simp
qed

lemma run_job_Inr:
  assumes "run_job C j w = Inr w'"
  shows "\<exists>args s result rng' e1.
           forward_arguments (self w) j = Inr args \<and> solver (self w) = Some s \<and>
           forward C s (rng w) args = Inr (result, rng') \<and>
           store_result (self w) result j = Inr e1 \<and> j < length (shared_pv w) \<and>
           w' = \<lparr>self = e1, shared_pv = (shared_pv w)[j := res_pv result], rng = rng',
                 calls = calls w @ [j]\<rparr>"
proof (cases "forward_arguments (self w) j")
  case (Inl err)
  with assms show ?thesis by (simp add: run_job_def)
next
  case args: (Inr args)
  show ?thesis
  proof (cases "solver (self w)")
    case None
    with assms args show ?thesis by (simp add: run_job_def)
  next
    case s: (Some s)
    show ?thesis
    proof (cases "forward C s (rng w) args")
      case (Inl err)
      with assms args s show ?thesis by (simp add: run_job_def)
    next
      case (Inr res)
      obtain result rng' where res: "res = (result, rng')" by (cases res)
      show ?thesis
      proof (cases "store_result (self w) result j")
        case (Inl err)
        with assms args s Inr res show ?thesis by (simp add: run_job_def)
      next
        case e1: (Inr e1)
        with assms args s Inr res show ?thesis
          by (simp add: run_job_def split: if_splits)
      qed
    qed
  qed
qed

lemma run_job_frame:
  assumes "run_job C j w = Inr w'"
  shows "CI (self w') = CI (self w) \<and> n_simulations (self w') = n_simulations (self w)
         \<and> calls w' = calls w @ [j] \<and> length (shared_pv w') = length (shared_pv w)"
proof -
  from run_job_Inr[OF assms] obtain result rng' e1 where
    st: "store_result (self w) result j = Inr e1" and
    w': "w' = \<lparr>self = e1, shared_pv = (shared_pv w)[j := res_pv result], rng = rng',
                 calls = calls w @ [j]\<rparr>" by blast
  from store_result_frame[OF st] w' show ?thesis by simp
qed

lemma run_jobs_frame:
  "run_jobs C js w = Inr w' \<Longrightarrow>
     CI (self w') = CI (self w) \<and> n_simulations (self w') = n_simulations (self w)
     \<and> calls w' = calls w @ js \<and> length (shared_pv w') = length (shared_pv w)"
proof (induction js arbitrary: w)
  case Nil
  then show ?case by simp
next
  case (Cons j js)
  then obtain w1 where w1: "run_job C j w = Inr w1" and rest: "run_jobs C js w1 = Inr w'"
    by (auto split: sum.splits)
  from run_job_frame[OF w1] Cons.IH[OF rest] show ?case by simp
qed

lemma run_single_frame:
  assumes "run_single C e pv_array jobs = Inr w'"
  shows "CI (self w') = CI e \<and> n_simulations (self w') = n_simulations e
     \<and> calls w' = jobs \<and> length (shared_pv w') = length pv_array \<and> jobs \<noteq> []"
proof -
  from assms obtain seed where "worker_seed jobs = Inr seed"
    and r: "run_jobs C jobs \<lparr>self = e, shared_pv = pv_array, rng = RandomState C seed, calls = []\<rparr> = Inr w'"
    by (auto simp: run_single_def split: sum.splits)
  then have "jobs \<noteq> []" by (auto simp: worker_seed_def getitem_def)
  with run_jobs_frame[OF r] show ?thesis by simp
qed

lemma compute_paths_frame:
  assumes "compute_sample_path_idx_and_markovian_path C e = Inr e'"
  shows "CI e' = CI e \<and> n_simulations e' = n_simulations e"
proof (cases "cls e")
  case Class_Evaluation_base
  with assms show ?thesis by (simp add: compute_sample_path_idx_and_markovian_path_def)
next
  case Class_Evaluation
  with assms show ?thesis
    by (auto simp: compute_sample_path_idx_and_markovian_path_def py_bind_eq_Inr
             split: option.splits if_splits)
next
  case Class_EvaluationTrue
  with assms show ?thesis
    by (auto simp: compute_sample_path_idx_and_markovian_path_def py_bind_eq_Inr
             split: option.splits if_splits)
qed

lemma py_bindE:
  assumes "py_bind r f = Inr y"
  obtains x where "r = Inr x" and "f x = Inr y"
  using assms by (cases r) simp_all

lemma prepare_frame:
  "prepare C e n_sims qry qry_dual qsc n_periodical = Inr (e1, n) \<Longrightarrow>
     CI e1 = CI e \<and> n_simulations e1 = Some n_sims"
  unfolding prepare_def
  apply (erule py_bindE)
  apply (clarsimp simp del: py_bind_Inr py_bind_Inl)
  apply (erule py_bindE)+
  apply (drule compute_paths_frame)
  apply clarsimp
  done

lemma simulate_frame:
  assumes "simulate C e n n_processes = (Inr (e2, pv_local), made)"
  shows "CI e2 = CI e \<and> n_simulations e2 = n_simulations e
         \<and> (n_processes = 1 \<longrightarrow> pv_local = None \<and> made = [0..<n] \<and> 0 < n)
         \<and> (n_processes \<noteq> 1 \<longrightarrow> pv_local = pv e2 \<and> pv_local \<noteq> None)"
proof (cases "n_processes = 1")
  case True
  with assms obtain w where
    r: "run_single C (e\<lparr>pv := Some (replicate n (Py 0))\<rparr>) (replicate n (Py 0)) [0..<n] = Inr w"
    and e2: "e2 = (self w)\<lparr>pv := Some (shared_pv w)\<rparr>" "pv_local = None" "made = calls w"
    by (auto simp: simulate_def split: sum.splits prod.splits)
  from run_single_frame[OF r] e2 True show ?thesis by simp
next
  case False
  with assms show ?thesis
    by (auto simp: simulate_def split: sum.splits prod.splits)
qed

lemma compute_gap_frame:
  "compute_gap e = Inr e' \<Longrightarrow> \<exists>g. e' = e\<lparr>gap := g\<rparr>"
  by (auto simp: compute_gap_def split: sum.splits if_splits)

lemma aggregate_one:
  "n_simulations e = Some 1 \<Longrightarrow> aggregate C e pv_local percentile = compute_gap e"
  by (simp add: aggregate_def)

lemma aggregate_exhaustive:
  "n_simulations e = Some (- 1) \<Longrightarrow>
     aggregate C e pv_local percentile =
       py_bind (expected_policy_value e pv_local) (\<lambda>v. compute_gap (e\<lparr>epv := Some v\<rparr>))"
  by (cases "expected_policy_value e pv_local") (simp_all add: aggregate_def)

lemma aggregate_exhaustive_unbound:
  "n_simulations e = Some (- 1) \<Longrightarrow> aggregate C e None percentile = Inl UnboundLocalError"
  by (simp add: aggregate_exhaustive expected_policy_value_def)

lemma run_guard_false:
  assumes "\<not> (n_processes \<noteq> 1 \<and> (qry \<noteq> None \<or> qry_dual \<noteq> None \<or> qsc))"
  shows "run C e n_sims percentile qry qry_dual qsc n_periodical n_processes =
        (case prepare C e n_sims qry qry_dual qsc n_periodical of
           Inl err \<Rightarrow> (Inl err, [])
         | Inr (e1, n) \<Rightarrow>
             (case simulate C e1 n n_processes of
                (Inl err, made) \<Rightarrow> (Inl err, made)
              | (Inr (e2, pv_local), made) \<Rightarrow> (aggregate C e2 pv_local percentile, made)))"
  unfolding run_def using assms by (rule if_not_P)

lemma run_guard_true:
  assumes "n_processes \<noteq> 1 \<and> (qry \<noteq> None \<or> qry_dual \<noteq> None \<or> qsc)"
  shows "run C e n_sims percentile qry qry_dual qsc n_periodical n_processes =
           (Inl NotImplementedError, [])"
  unfolding run_def using assms by (rule if_P)

lemma run_cases:
  obtains (guard) "n_processes \<noteq> 1 \<and> (qry \<noteq> None \<or> qry_dual \<noteq> None \<or> qsc)"
      "\<And>percentile. run C e n_sims percentile qry qry_dual qsc n_periodical n_processes
         = (Inl NotImplementedError, [])"
  | (prepare) err where
      "\<And>percentile. run C e n_sims percentile qry qry_dual qsc n_periodical n_processes
         = (Inl err, [])"
  | (simulate) err made where
      "\<And>percentile. run C e n_sims percentile qry qry_dual qsc n_periodical n_processes
         = (Inl err, made)"
  | (aggregate) e1 n e2 pv_local made where
      "prepare C e n_sims qry qry_dual qsc n_periodical = Inr (e1, n)"
      "simulate C e1 n n_processes = (Inr (e2, pv_local), made)"
      "\<And>percentile. run C e n_sims percentile qry qry_dual qsc n_periodical n_processes
         = (aggregate C e2 pv_local percentile, made)"
proof (cases "n_processes \<noteq> 1 \<and> (qry \<noteq> None \<or> qry_dual \<noteq> None \<or> qsc)")
  case True
  then show ?thesis by (rule guard) (rule run_guard_true [OF True])
next
  case g: False
  show ?thesis
  proof (cases "prepare C e n_sims qry qry_dual qsc n_periodical")
    case (Inl err)
    with g show ?thesis using prepare [of err] by (simp add: run_guard_false)
  next
    case (Inr x)
    obtain e1 n where x: "x = (e1, n)" by (cases x)
    obtain r made where s: "simulate C e1 n n_processes = (r, made)"
      by (cases "simulate C e1 n n_processes")
    show ?thesis
    proof (cases r)
      case (Inl err)
      with g Inr x s show ?thesis using simulate [of err made] by (simp add: run_guard_false)
    next
      case r: (Inr y)
      obtain e2 pv_local where y: "y = (e2, pv_local)" by (cases y)
      from g Inr x s r y show ?thesis using aggregate [of e1 n e2 pv_local made]
        by (simp add: run_guard_false)
    qed
  qed
qed

section \<open>A single simulation has no confidence interval\<close>

lemma match_stages_compute_CI:
  "match_stages (C\<lparr>compute_CI := f\<rparr>) M samples n ts = match_stages C M samples n ts"
proof (induction ts)
  case Nil
  show ?case by (rule ext) simp
next
  case (Cons t ts)
  show ?case by (rule ext) (simp add: match_stage_def Cons)
qed

lemma compute_paths_compute_CI:
  "compute_sample_path_idx_and_markovian_path (C\<lparr>compute_CI := f\<rparr>) e
     = compute_sample_path_idx_and_markovian_path C e"
  by (simp add: compute_sample_path_idx_and_markovian_path_def match_stages_compute_CI
        cong: if_cong option.case_cong eval_class.case_cong)

lemma prepare_compute_CI:
  "prepare (C\<lparr>compute_CI := f\<rparr>) e n_sims qry qry_dual qsc n_periodical
     = prepare C e n_sims qry qry_dual qsc n_periodical"
  by (simp add: prepare_def compute_paths_compute_CI)

lemma run_job_compute_CI:
  "run_job (C\<lparr>compute_CI := f\<rparr>) j w = run_job C j w"
  by (simp add: run_job_def cong: sum.case_cong option.case_cong)

lemma run_jobs_compute_CI:
  "run_jobs (C\<lparr>compute_CI := f\<rparr>) js w = run_jobs C js w"
  by (induction js arbitrary: w) (simp_all add: run_job_compute_CI cong: sum.case_cong)

lemma run_single_compute_CI:
  "run_single (C\<lparr>compute_CI := f\<rparr>) e pv_array jobs = run_single C e pv_array jobs"
  by (simp add: run_single_def run_jobs_compute_CI cong: sum.case_cong)

lemma run_workers_compute_CI:
  "run_workers (C\<lparr>compute_CI := f\<rparr>) e jobs ps pv_array made
     = run_workers C e jobs ps pv_array made"
  by (induction ps arbitrary: pv_array made)
     (simp_all add: run_single_compute_CI cong: sum.case_cong prod.case_cong)

lemma simulate_compute_CI:
  "simulate (C\<lparr>compute_CI := f\<rparr>) e n n_processes = simulate C e n n_processes"
  by (simp add: simulate_def run_single_compute_CI run_workers_compute_CI
        cong: sum.case_cong prod.case_cong if_cong)

text \<open>
  Claim C8. A run with \<open>n_simulations = 1\<close> computes no confidence interval: its outcome is
  the same whatever \<^verbatim>\<open>compute_CI\<close> would do. It leaves the attribute \<open>CI\<close> of the object as
  it was: on a freshly constructed evaluation object it is \<^verbatim>\<open>None\<close> after the run, but
  \<^verbatim>\<open>run\<close> does not reset it, so on an object that an earlier run has given an interval the
  run returns with that interval.
\<close>

theorem run_one_simulation_no_interval:
  "run (C\<lparr>compute_CI := f\<rparr>) e 1 percentile qry qry_dual qsc n_periodical n_processes
     = run C e 1 percentile qry qry_dual qsc n_periodical n_processes
   \<and> (\<forall>e'. fst (run C e 1 percentile qry qry_dual qsc n_periodical n_processes) = Inr e'
          \<longrightarrow> CI e' = CI e)
   \<and> (\<forall>e'. fst (run C (init c M) 1 percentile qry qry_dual qsc n_periodical n_processes) = Inr e'
          \<longrightarrow> CI e' = None)"
proof -
  have unchanged: "CI e' = CI e0"
    if "fst (run C e0 1 percentile qry qry_dual qsc n_periodical n_processes) = Inr e'"
    for e0 e'
  proof (cases rule: run_cases [of n_processes qry qry_dual qsc C e0 1 n_periodical])
    case guard
    with that show ?thesis by simp
  next
    case (prepare err)
    with that show ?thesis by simp
  next
    case (simulate err made)
    with that show ?thesis by simp
  next
    case (aggregate e1 n e2 pv_local made)
    from prepare_frame [OF aggregate(1)] simulate_frame [OF aggregate(2)]
    have e2: "CI e2 = CI e0" "n_simulations e2 = Some 1" by simp_all
    from that aggregate(3) e2 have "compute_gap e2 = Inr e'" by (simp add: aggregate_one)
    from compute_gap_frame [OF this] have "CI e' = CI e2" by auto
    with e2 show ?thesis by simp
  qed
  have same: "run (C\<lparr>compute_CI := f\<rparr>) e 1 percentile qry qry_dual qsc n_periodical n_processes
     = run C e 1 percentile qry qry_dual qsc n_periodical n_processes"
  proof (cases "n_processes \<noteq> 1 \<and> (qry \<noteq> None \<or> qry_dual \<noteq> None \<or> qsc)")
    case True
    show ?thesis by (simp only: run_guard_true [OF True])
  next
    case g: False
    show ?thesis
    proof (cases "prepare C e 1 qry qry_dual qsc n_periodical")
      case (Inl err)
      then show ?thesis
        by (simp add: run_guard_false [OF g] prepare_compute_CI)
    next
      case (Inr x)
      obtain e1 n where x: "x = (e1, n)" by (cases x)
      obtain r made where s: "simulate C e1 n n_processes = (r, made)"
        by (cases "simulate C e1 n n_processes")
      show ?thesis
      proof (cases r)
        case (Inl err)
        with Inr x s show ?thesis
          by (simp add: run_guard_false [OF g] prepare_compute_CI simulate_compute_CI)
      next
        case r: (Inr y)
        obtain e2 pv_local where y: "y = (e2, pv_local)" by (cases y)
        from prepare_frame [of C e 1 qry qry_dual qsc n_periodical e1 n]
             simulate_frame [of C e1 n n_processes e2 pv_local made] Inr x s r y
        have "n_simulations e2 = Some 1" by simp
        with Inr x s r y show ?thesis
          by (simp add: run_guard_false [OF g] prepare_compute_CI simulate_compute_CI
                aggregate_one)
      qed
    qed
  qed
  from unchanged [of e] unchanged [of "init c M"] same show ?thesis
    by (simp add: init_def)
qed

lemma example_run_one_returns:
  "(case fst (run example_collaborators (init Class_Evaluation example_chain) 1 95
                None None False None 1) of Inl err \<Rightarrow> False | Inr e' \<Rightarrow> True)"
  by code_simp

text \<open>
  Instances: on a fresh object the run of one simulation returns without an interval. On
  the object left by a run of four simulations, whose interval is \<open>(0, 2)\<close>, the run of one
  simulation returns with the one new policy value, the interval \<open>(0, 2)\<close> of the earlier
  run, and the gap \<open>0\<close> computed from that interval (the gap of the new value to the bound
  \<open>2\<close> is \<open>1/2\<close>).
\<close>

theorem run_one_simulation_no_interval_witness:
  "(\<exists>e'. fst (run example_collaborators (init Class_Evaluation example_chain) 1 95
              None None False None 1) = Inr e' \<and> CI e' = None)
   \<and> run (example_collaborators\<lparr>compute_CI := (\<lambda>values percentile. Inl ValueError)\<rparr>)
        (init Class_Evaluation example_chain) 1 95 None None False None 1
      = run example_collaborators (init Class_Evaluation example_chain) 1 95
          None None False None 1
   \<and> map_sum id (\<lambda>e'. (pv e', CI e', gap e'))
        (fst (run example_collaborators (init Class_Evaluation example_chain) 4 95
                None None False None 1))
      = Inr (Some [Py 1, Py 1, Py 1, Py 1], Some (Np 0, Np 2), Some (Gap (Number (Np 0))))
   \<and> map_sum id (\<lambda>e'. (pv e', CI e', gap e'))
        (py_bind
           (fst (run example_collaborators (init Class_Evaluation example_chain) 4 95
                   None None False None 1))
           (\<lambda>e1. fst (run example_collaborators e1 1 95 None None False None 1)))
      = Inr (Some [Py 1], Some (Np 0, Np 2), Some (Gap (Number (Np 0))))"
proof -
  have first: "map_sum id (\<lambda>e'. (pv e', CI e', gap e'))
        (fst (run example_collaborators (init Class_Evaluation example_chain) 4 95
                None None False None 1))
      = Inr (Some [Py 1, Py 1, Py 1, Py 1], Some (Np 0, Np 2), Some (Gap (Number (Np 0))))"
    by code_simp
  have reused: "map_sum id (\<lambda>e'. (pv e', CI e', gap e'))
        (py_bind
           (fst (run example_collaborators (init Class_Evaluation example_chain) 4 95
                   None None False None 1))
           (\<lambda>e1. fst (run example_collaborators e1 1 95 None None False None 1)))
      = Inr (Some [Py 1], Some (Np 0, Np 2), Some (Gap (Number (Np 0))))"
    by code_simp
  from example_run_one_returns obtain e' where
    "fst (run example_collaborators (init Class_Evaluation example_chain) 1 95
            None None False None 1) = Inr e'"
    by (auto split: sum.splits)
  with run_one_simulation_no_interval
         [where C = example_collaborators and f = "\<lambda>values percentile. Inl ValueError"
            and e = "init Class_Evaluation example_chain" and percentile = 95
            and qry = None and qry_dual = None and qsc = False and n_periodical = None
            and n_processes = 1 and c = Class_Evaluation and M = example_chain]
  have "(\<exists>e'. fst (run example_collaborators (init Class_Evaluation example_chain) 1 95
              None None False None 1) = Inr e' \<and> CI e' = None)
   \<and> run (example_collaborators\<lparr>compute_CI := (\<lambda>values percentile. Inl ValueError)\<rparr>)
        (init Class_Evaluation example_chain) 1 95 None None False None 1
      = run example_collaborators (init Class_Evaluation example_chain) 1 95
          None None False None 1"
    by blast
  with first reused show ?thesis by (simp only: simp_thms)
qed

section \<open>The percentile is not validated\<close>

text \<open>
  Claim C3, as amended. \<^verbatim>\<open>run\<close> does not validate the percentile. The solver calls made
  are the same for every percentile; for \<open>n_simulations\<close> equal to \<open>-1\<close> or \<open>1\<close> the whole
  outcome is the same for every percentile; and in a single-worker run an outcome reached
  before any solver call is the same for every percentile, so that no failure before the
  simulation is a rejection of the percentile.
\<close>

theorem run_percentile_unchecked:
  "snd (run C e n_sims p qry qry_dual qsc n_periodical n_processes)
     = snd (run C e n_sims p' qry qry_dual qsc n_periodical n_processes)
   \<and> (n_sims = - 1 \<or> n_sims = 1 \<longrightarrow>
        run C e n_sims p qry qry_dual qsc n_periodical n_processes
          = run C e n_sims p' qry qry_dual qsc n_periodical n_processes)
   \<and> (n_processes = 1 \<and> snd (run C e n_sims p qry qry_dual qsc n_periodical n_processes) = []
        \<longrightarrow> run C e n_sims p qry qry_dual qsc n_periodical n_processes
              = run C e n_sims p' qry qry_dual qsc n_periodical n_processes)"
proof (cases rule: run_cases [of n_processes qry qry_dual qsc C e n_sims n_periodical])
  case guard
  have "run C e n_sims p qry qry_dual qsc n_periodical n_processes
          = run C e n_sims p' qry qry_dual qsc n_periodical n_processes"
    by (simp only: guard(2))
  then show ?thesis by metis
next
  case (prepare err)
  have "run C e n_sims p qry qry_dual qsc n_periodical n_processes
          = run C e n_sims p' qry qry_dual qsc n_periodical n_processes"
    by (simp only: prepare)
  then show ?thesis by metis
next
  case (simulate err made)
  have "run C e n_sims p qry qry_dual qsc n_periodical n_processes
          = run C e n_sims p' qry qry_dual qsc n_periodical n_processes"
    by (simp only: simulate)
  then show ?thesis by metis
next
  case (aggregate e1 n e2 pv_local made)
  from prepare_frame [OF aggregate(1)] simulate_frame [OF aggregate(2)]
  have n: "n_simulations e2 = Some n_sims"
    and seq: "n_processes = 1 \<longrightarrow> made = [0..<n] \<and> 0 < n" by simp_all
  have "aggregate C e2 pv_local p = aggregate C e2 pv_local p'"
    if "n_sims = - 1 \<or> n_sims = 1"
    using that n by (auto simp: aggregate_one aggregate_exhaustive)
  moreover have "made \<noteq> []" if "n_processes = 1"
    using that seq by auto
  ultimately show ?thesis by (auto simp only: aggregate(3) snd_conv)
qed

theorem run_percentile_unchecked_witness:
  "run example_collaborators (init Class_Evaluation example_chain) 1 150 None None False None 1
     = run example_collaborators (init Class_Evaluation example_chain) 1 95 None None False None 1
   \<and> snd (run example_collaborators (init Class_Evaluation example_chain) 0 150
             None None False None 1) = []
   \<and> run example_collaborators (init Class_Evaluation example_chain) 0 150 None None False None 1
     = run example_collaborators (init Class_Evaluation example_chain) 0 95 None None False None 1"
proof -
  have empty: "snd (run example_collaborators (init Class_Evaluation example_chain) 0 150
             None None False None 1) = []"
    by code_simp
  from run_percentile_unchecked
         [where C = example_collaborators and e = "init Class_Evaluation example_chain"
            and n_sims = 1 and p = 150 and p' = 95 and qry = None and qry_dual = None
            and qsc = False and n_periodical = None and n_processes = 1]
       run_percentile_unchecked
         [where C = example_collaborators and e = "init Class_Evaluation example_chain"
            and n_sims = 0 and p = 150 and p' = 95 and qry = None and qry_dual = None
            and qsc = False and n_periodical = None and n_processes = 1]
       empty
  show ?thesis by simp
qed

text \<open>
  Counterexample to claim C3 as stated: with the percentile \<open>150\<close> a run of one simulation returns
  normally after calling the solver, and a run of four simulations fails only in
  \<^verbatim>\<open>compute_CI\<close>, after the solver has been called for all four paths.
\<close>

theorem run_accepts_invalid_percentile:
  "map_prod (map_sum id CI) id
     (run example_collaborators (init Class_Evaluation example_chain) 1 150
        None None False None 1) = (Inr None, [0])
   \<and> map_prod (map_sum id CI) id
     (run example_collaborators (init Class_Evaluation example_chain) 4 150
        None None False None 1) = (Inl ValueError, [0, 1, 2, 3])"
  by code_simp

section \<open>The exact expected value of an exhaustive run\<close>

lemma py_map_Inr:
  "py_map f xs = Inr ys \<Longrightarrow> length ys = length xs \<and> (\<forall>i<length xs. f (xs ! i) = Inr (ys ! i))"
proof (induction xs arbitrary: ys)
  case Nil
  then show ?case by simp
next
  case (Cons x xs)
  from Cons.prems obtain y ys' where y: "f x = Inr y" and r: "py_map f xs = Inr ys'"
    and ys: "ys = y # ys'"
    by (auto elim!: py_bindE)
  from Cons.IH [OF r] y ys show ?case by (auto simp: nth_Cons split: nat.splits)
qed

lemma py_map_upt_Inr:
  "py_map f [0..<n] = Inr ys \<Longrightarrow> length ys = n \<and> (\<forall>i<n. f i = Inr (ys ! i))"
  by (drule py_map_Inr) auto

text \<open>
  Claim C1. With the exhaustive sentinel \<open>n_simulations = -1\<close> and several workers, a run
  that returns has stored as \<open>epv\<close> the dot product of the per-path values and the weights
  \<^verbatim>\<open>_compute_weight_sample_path\<close> of the enumerated paths. With one worker the local name
  \<^verbatim>\<open>pv\<close> is never bound: the run never returns, and when the simulation itself succeeds
  the exception is \<open>UnboundLocalError\<close>.
\<close>

theorem exhaustive_expected_value:
  "(\<exists>err. fst (run C e (- 1) percentile qry qry_dual qsc n_periodical 1) = Inl err)
   \<and> (\<forall>e1 n e2 pv_local made.
         prepare C e (- 1) qry qry_dual qsc n_periodical = Inr (e1, n) \<and>
         simulate C e1 n 1 = (Inr (e2, pv_local), made)
         \<longrightarrow> run C e (- 1) percentile qry qry_dual qsc n_periodical 1
               = (Inl UnboundLocalError, made))
   \<and> (\<forall>e'. n_processes \<noteq> 1 \<and>
         fst (run C e (- 1) percentile qry qry_dual qsc n_periodical n_processes) = Inr e'
         \<longrightarrow> (\<exists>vals weights.
                pv e' = Some vals \<and> length weights = length vals \<and>
                (\<forall>j<length vals. \<exists>paths.
                   sample_path_idx e' = Some paths \<and> j < length paths \<and>
                   compute_weight_sample_path (MSP e') (paths ! j) = Inr (weights ! j)) \<and>
                epv e' = Some (Np (sum_list (map (\<lambda>(v, w). value_of v * w)
                                                  (zip vals weights))))))"
proof (intro conjI allI impI)
  show "\<exists>err. fst (run C e (- 1) percentile qry qry_dual qsc n_periodical 1) = Inl err"
  proof (cases rule: run_cases [of 1 qry qry_dual qsc C e "- 1" n_periodical])
    case guard
    then show ?thesis by simp
  next
    case (prepare err)
    then show ?thesis by simp
  next
    case (simulate err made)
    then show ?thesis by simp
  next
    case (aggregate e1 n e2 pv_local made)
    from prepare_frame [OF aggregate(1)] simulate_frame [OF aggregate(2)]
    have "n_simulations e2 = Some (- 1)" "pv_local = None" by simp_all
    with aggregate(3) show ?thesis by (simp add: aggregate_exhaustive_unbound)
  qed
next
  fix e1 n e2 pv_local made
  assume a: "prepare C e (- 1) qry qry_dual qsc n_periodical = Inr (e1, n) \<and>
         simulate C e1 n 1 = (Inr (e2, pv_local), made)"
  from prepare_frame [of C e "- 1" qry qry_dual qsc n_periodical e1 n]
       simulate_frame [of C e1 n 1 e2 pv_local made] a
  have "n_simulations e2 = Some (- 1)" "pv_local = None" by simp_all
  with a show "run C e (- 1) percentile qry qry_dual qsc n_periodical 1
               = (Inl UnboundLocalError, made)"
    by (simp add: run_guard_false aggregate_exhaustive_unbound)
next
  fix e'
  assume a: "n_processes \<noteq> 1 \<and>
         fst (run C e (- 1) percentile qry qry_dual qsc n_periodical n_processes) = Inr e'"
  show "\<exists>vals weights.
                pv e' = Some vals \<and> length weights = length vals \<and>
                (\<forall>j<length vals. \<exists>paths.
                   sample_path_idx e' = Some paths \<and> j < length paths \<and>
                   compute_weight_sample_path (MSP e') (paths ! j) = Inr (weights ! j)) \<and>
                epv e' = Some (Np (sum_list (map (\<lambda>(v, w). value_of v * w)
                                                  (zip vals weights))))"
  proof (cases rule: run_cases [of n_processes qry qry_dual qsc C e "- 1" n_periodical])
    case guard
    with a show ?thesis by simp
  next
    case (prepare err)
    with a show ?thesis by simp
  next
    case (simulate err made)
    with a show ?thesis by simp
  next
    case (aggregate e1 n e2 pv_local made)
    from prepare_frame [OF aggregate(1)] simulate_frame [OF aggregate(2)] a
    have n: "n_simulations e2 = Some (- 1)" and pvl: "pv_local = pv e2"
      by simp_all
    from a aggregate(3) n
    have "py_bind (expected_policy_value e2 pv_local) (\<lambda>v. compute_gap (e2\<lparr>epv := Some v\<rparr>))
            = Inr e'"
      by (simp add: aggregate_exhaustive)
    then obtain v where v: "expected_policy_value e2 pv_local = Inr v"
      and g: "compute_gap (e2\<lparr>epv := Some v\<rparr>) = Inr e'"
      by (rule py_bindE)
    from compute_gap_frame [OF g]
    obtain gp where e': "e' = e2\<lparr>epv := Some v, gap := gp\<rparr>" by auto
    from v obtain vals where vals: "pv_local = Some vals"
      by (cases pv_local) (simp_all add: expected_policy_value_def)
    from v [unfolded expected_policy_value_def vals option.case]
    obtain m where "array_length (n_sample_paths e2) = Inr m"
      and r: "py_bind
            (py_map (\<lambda>j. py_bind (case sample_path_idx e2 of
                                     None \<Rightarrow> Inl TypeError
                                   | Some paths \<Rightarrow> getitem paths j)
                            (compute_weight_sample_path (MSP e2)))
               [0..<m])
            (\<lambda>weights.
          if length vals = length weights
          then Inr (Np (sum_list (map (\<lambda>(v, w). value_of v * w) (zip vals weights))))
          else Inl ValueError) = Inr v"
      by (rule py_bindE)
    from r obtain weights where
      w: "py_map (\<lambda>j. py_bind (case sample_path_idx e2 of
                                     None \<Rightarrow> Inl TypeError
                                   | Some paths \<Rightarrow> getitem paths j)
                            (compute_weight_sample_path (MSP e2))) [0..<m] = Inr weights"
      and d: "(if length vals = length weights
          then Inr (Np (sum_list (map (\<lambda>(v, w). value_of v * w) (zip vals weights))))
          else Inl ValueError) = (Inr v :: py_error + number)"
      by (rule py_bindE)
    from d have len: "length weights = length vals"
      and dot: "v = Np (sum_list (map (\<lambda>(v, w). value_of v * w) (zip vals weights)))"
      by (simp_all split: if_splits)
    from py_map_upt_Inr [OF w] have m: "length weights = m"
      and each: "\<forall>j<m. py_bind (case sample_path_idx e2 of
                                     None \<Rightarrow> Inl TypeError
                                   | Some paths \<Rightarrow> getitem paths j)
                            (compute_weight_sample_path (MSP e2)) = Inr (weights ! j)"
      by auto
    have "\<exists>paths. sample_path_idx e2 = Some paths \<and> j < length paths \<and>
            compute_weight_sample_path (MSP e2) (paths ! j) = Inr (weights ! j)"
      if "j < length vals" for j
    proof -
      from that len m each
      have b: "py_bind (case sample_path_idx e2 of
                                     None \<Rightarrow> Inl TypeError
                                   | Some paths \<Rightarrow> getitem paths j)
                            (compute_weight_sample_path (MSP e2)) = Inr (weights ! j)"
        by simp
      then obtain path where p: "(case sample_path_idx e2 of
                                     None \<Rightarrow> Inl TypeError
                                   | Some paths \<Rightarrow> getitem paths j) = Inr path"
        and w: "compute_weight_sample_path (MSP e2) path = Inr (weights ! j)"
        by (rule py_bindE)
      from p w show ?thesis
        by (cases "sample_path_idx e2") (auto simp: getitem_def split: if_splits)
    qed
    moreover from e' have "pv e' = pv e2" "sample_path_idx e' = sample_path_idx e2"
      "MSP e' = MSP e2" "epv e' = Some v"
      by simp_all
    ultimately show ?thesis using pvl vals len dot
      by (intro exI [of _ vals] exI [of _ weights]) simp
  qed
qed

theorem exhaustive_expected_value_witness:
  "(\<exists>err. fst (run example_collaborators (init Class_Evaluation example_chain) (- 1) 95
                None None False None 1) = Inl err)
   \<and> map_prod (map_sum id (\<lambda>e'. ())) id
         (run example_collaborators (init Class_Evaluation example_chain) (- 1) 95
            None None False None 1) = (Inl UnboundLocalError, [0, 1, 2, 3])
   \<and> map_prod (map_sum id (\<lambda>e'. (pv e', epv e'))) id
         (run example_collaborators (init Class_Evaluation example_chain) (- 1) 95
            None None False None 2)
       = (Inr (Some [Py 0, Py 1, Py 1, Py 2], Some (Np (69 / 50))), [0, 1, 2, 3])"
proof -
  have "map_prod (map_sum id (\<lambda>e'. ())) id
         (run example_collaborators (init Class_Evaluation example_chain) (- 1) 95
            None None False None 1) = (Inl UnboundLocalError, [0, 1, 2, 3])"
    by code_simp
  moreover have "map_prod (map_sum id (\<lambda>e'. (pv e', epv e'))) id
         (run example_collaborators (init Class_Evaluation example_chain) (- 1) 95
            None None False None 2)
       = (Inr (Some [Py 0, Py 1, Py 1, Py 2], Some (Np (69 / 50))), [0, 1, 2, 3])"
    by code_simp
  moreover from exhaustive_expected_value
      [where C = example_collaborators and e = "init Class_Evaluation example_chain"
         and percentile = 95 and qry = None and qry_dual = None and qsc = False
         and n_periodical = None and n_processes = 2]
  have "\<exists>err. fst (run example_collaborators (init Class_Evaluation example_chain) (- 1) 95
                None None False None 1) = Inl err"
    by (rule conjunct1)
  ultimately show ?thesis by (intro conjI)
qed

section \<open>The seed of a worker\<close>

lemma run_job_collaborators:
  assumes "forward C' = forward C"
  shows "run_job C' j w = run_job C j w"
  unfolding run_job_def assms by (rule refl)

lemma run_jobs_collaborators:
  assumes "forward C' = forward C"
  shows "run_jobs C' js w = run_jobs C js w"
  by (induction js arbitrary: w)
     (simp_all add: run_job_collaborators [OF assms] cong: sum.case_cong)

text \<open>
  Claim C9. A worker seeds its random state with the array of the fixed component
  \<open>2^32 - 1\<close> and the index of its first job, and with nothing else: the worker starts from
  \<^verbatim>\<open>RandomState\<close> of that seed, and its whole outcome is determined by the object, the array,
  the job list, the random state constructor and the solver, so that the same partition
  gives each worker the same draws.
\<close>

theorem worker_seed_first_job:
  "worker_seed (j # js) = Inr [4294967295, int j]
   \<and> run_single C e pv_array (j # js)
       = run_jobs C (j # js)
           \<lparr>self = e, shared_pv = pv_array, rng = RandomState C [4294967295, int j],
            calls = []\<rparr>
   \<and> (RandomState C' = RandomState C \<and> forward C' = forward C
        \<longrightarrow> run_single C' e pv_array jobs = run_single C e pv_array jobs)"
proof (intro conjI impI)
  show seed: "worker_seed (j # js) = Inr [4294967295, int j]"
    by (simp add: worker_seed_def getitem_def)
  show "run_single C e pv_array (j # js)
       = run_jobs C (j # js)
           \<lparr>self = e, shared_pv = pv_array, rng = RandomState C [4294967295, int j],
            calls = []\<rparr>"
    unfolding run_single_def seed by simp
  assume "RandomState C' = RandomState C \<and> forward C' = forward C"
  then have r: "RandomState C' = RandomState C" and f: "forward C' = forward C"
    by simp_all
  show "run_single C' e pv_array jobs = run_single C e pv_array jobs"
    unfolding run_single_def r run_jobs_collaborators [OF f] by (rule refl)
qed

theorem worker_seed_first_job_witness:
  "worker_seed [2, 3] = Inr [4294967295, 2]
   \<and> map_sum fst (\<lambda>w. (rng w, shared_pv w, calls w))
        (run_single example_collaborators
           ((init Class_Evaluation example_chain)\<lparr>solver := Some (SDDP example_chain)\<rparr>)
           [Py 0, Py 0, Py 0, Py 0] [2, 3])
      = Inr (([4294967295, 2], 2), [Py 0, Py 0, Py 1, Py 1], [2, 3])
   \<and> run_single (example_collaborators\<lparr>compute_CI := (\<lambda>vs p. Inl ValueError)\<rparr>)
        (init Class_Evaluation example_chain) [Py 0, Py 0] [0, 1]
      = run_single example_collaborators (init Class_Evaluation example_chain) [Py 0, Py 0] [0, 1]"
proof -
  have "map_sum fst (\<lambda>w. (rng w, shared_pv w, calls w))
        (run_single example_collaborators
           ((init Class_Evaluation example_chain)\<lparr>solver := Some (SDDP example_chain)\<rparr>)
           [Py 0, Py 0, Py 0, Py 0] [2, 3])
      = Inr (([4294967295, 2], 2), [Py 0, Py 0, Py 1, Py 1], [2, 3])"
    by code_simp
  with worker_seed_first_job
         [where j = 2 and js = "[3]" and C = example_collaborators
            and C' = "example_collaborators\<lparr>compute_CI := (\<lambda>vs p. Inl ValueError)\<rparr>"
            and e = "init Class_Evaluation example_chain" and pv_array = "[Py 0, Py 0]"
            and jobs = "[0, 1]"]
  show ?thesis by simp
qed

section \<open>The Markov-state matcher\<close>

subsection \<open>Stage 0\<close>

lemma set_column_Inr:
  assumes "set_column m j v = Inr m'"
  shows "n_cols m' = n_cols m \<and> length (rows m') = length (rows m) \<and> j < n_cols m \<and>
         (\<forall>i<length (rows m). length (rows m' ! i) = length (rows m ! i) \<and>
            (\<forall>c. c \<noteq> j \<longrightarrow> rows m' ! i ! c = rows m ! i ! c))"
proof -
  from assms have j: "j < n_cols m" by (auto simp: set_column_def split: if_splits)
  show ?thesis
  proof (cases "length v = length (rows m)")
    case True
    with assms j have "m' = m\<lparr>rows := map (\<lambda>(row, x). row[j := x]) (zip (rows m) v)\<rparr>"
      by (simp add: set_column_def)
    with True j show ?thesis by simp
  next
    case False
    with assms j have "m' = m\<lparr>rows := map (\<lambda>row. row[j := hd v]) (rows m)\<rparr>"
      by (auto simp: set_column_def split: if_splits)
    with j show ?thesis by simp
  qed
qed

lemma set_column_exact:
  assumes "j < n_cols m" and "length v = length (rows m)"
  shows "set_column m j v = Inr (m\<lparr>rows := map (\<lambda>(row, x). row[j := x]) (zip (rows m) v)\<rparr>)"
  using assms by (simp add: set_column_def)

lemma match_stage_stage0:
  assumes "match_stage C M samples n t idx = Inr idx'" and "1 \<le> t" and "stage0_zero n horizon idx"
  shows "stage0_zero n horizon idx'"
proof -
  from assms(1) obtain ks where "set_column idx t ks = Inr idx'"
    unfolding match_stage_def by (elim py_bindE)
  from set_column_Inr [OF this] assms(2,3) show ?thesis
    by (auto simp: stage0_zero_def)
qed

lemma match_stages_stage0:
  assumes "match_stages C M samples n ts idx = Inr idx'" and "\<forall>t\<in>set ts. 1 \<le> t"
    and "stage0_zero n horizon idx"
  shows "stage0_zero n horizon idx'"
  using assms
proof (induction ts arbitrary: idx)
  case Nil
  then show ?case by simp
next
  case (Cons t ts)
  from Cons.prems(1) obtain idx1 where a: "match_stage C M samples n t idx = Inr idx1"
    and b: "match_stages C M samples n ts idx1 = Inr idx'"
    by (auto elim: py_bindE)
  from match_stage_stage0 [OF a _ Cons.prems(3)] Cons.prems(2)
  have "stage0_zero n horizon idx1" by simp
  from Cons.IH [OF b _ this] Cons.prems(2) show ?case by simp
qed

text \<open>
  Claim C10. In the evaluation of a continuous Markovian process the matched index of
  stage \<open>0\<close> is \<open>0\<close> for every sample path: the array of matched indices starts as zeros,
  and the matching loop runs over the stages \<open>1, \<dots>, T - 1\<close> and writes their columns only.
\<close>

theorem matched_index_stage0:
  assumes "compute_sample_path_idx_and_markovian_path C e = Inr e'"
    and "cls e = Class_EvaluationTrue" and "type' (MSP e) = Markovian"
    and "0 < T (MSP e)"
  shows "\<exists>n idx. n_simulations e = Some (int n) \<and> markovian_idx e' = Some idx \<and>
           length idx = n \<and> (\<forall>row\<in>set idx. length row = T (MSP e) \<and> row ! 0 = 0)"
proof -
  from assms(1,2,3) obtain k rs where k: "n_simulations e = Some k" and "random_state e = Some rs"
    and r: "py_bind (Markovian_uncertainty C rs k) (\<lambda>(samples, rs').
                      if k < 0 then Inl ValueError
                      else
                        py_bind
                          (match_stages C (MSP e) samples (nat k) [1..<T (MSP e)]
                             (full (nat k) (T (MSP e)) 0))
                          (\<lambda>idx.
                        Inr (e\<lparr>n_sample_paths := Some k, solve_true := True,
                               markovian_samples := Some samples,
                               random_state := Some rs',
                               markovian_idx := Some (rows idx)\<rparr>))) = Inr e'"
    by (auto simp: compute_sample_path_idx_and_markovian_path_def split: option.splits)
  from r obtain x where "Markovian_uncertainty C rs k = Inr x"
    and r2: "(case x of (samples, rs') \<Rightarrow>
                      if k < 0 then Inl ValueError
                      else
                        py_bind
                          (match_stages C (MSP e) samples (nat k) [1..<T (MSP e)]
                             (full (nat k) (T (MSP e)) 0))
                          (\<lambda>idx.
                        Inr (e\<lparr>n_sample_paths := Some k, solve_true := True,
                               markovian_samples := Some samples,
                               random_state := Some rs',
                               markovian_idx := Some (rows idx)\<rparr>))) = Inr e'"
    by (rule py_bindE)
  obtain samples rs' where x: "x = (samples, rs')" by (cases x)
  from r2 x have k0: "\<not> k < 0" by (auto split: if_splits)
  with r2 x obtain idx where m: "match_stages C (MSP e) samples (nat k) [1..<T (MSP e)]
                             (full (nat k) (T (MSP e)) 0) = Inr idx"
    and e': "e' = e\<lparr>n_sample_paths := Some k, solve_true := True,
                               markovian_samples := Some samples,
                               random_state := Some rs',
                               markovian_idx := Some (rows idx)\<rparr>"
    by (auto elim!: py_bindE)
  have "stage0_zero (nat k) (T (MSP e)) (full (nat k) (T (MSP e)) 0)"
    using assms(4) by (simp add: stage0_zero_def full_def)
  from match_stages_stage0 [OF m _ this]
  have "stage0_zero (nat k) (T (MSP e)) idx" by simp
  with e' k k0 show ?thesis
    by (intro exI [of _ "nat k"] exI [of _ "rows idx"])
       (auto simp: stage0_zero_def in_set_conv_nth)
qed

subsection \<open>Distances and the first minimum\<close>

lemma py_map_all_Inr:
  "(\<forall>x\<in>set xs. f x = Inr (g x)) \<Longrightarrow> py_map f xs = Inr (map g xs)"
  by (induction xs) simp_all

lemma squared_distance_euclidean:
  assumes "length row = length state"
  shows "squared_distance row state = Inr (squared_euclidean row state)"
proof -
  have "sum_list (map (\<lambda>x. x\<^sup>2) (map (\<lambda>(x, y). x - y) (zip row state)))
          = (\<Sum>i<length row. (row ! i - state ! i)\<^sup>2)"
    using assms by (simp add: sum_list_sum_nth atLeast0LessThan)
  with assms show ?thesis
    by (simp add: squared_distance_def subtract_state_def squared_euclidean_def)
qed

lemma squared_euclidean_nonneg: "0 \<le> squared_euclidean x y"
  by (simp add: squared_euclidean_def sum_nonneg)

lemma squared_euclidean_self: "squared_euclidean x x = 0"
  by (simp add: squared_euclidean_def)

lemma squared_euclidean_zero:
  assumes "squared_euclidean x y = 0" and "length x = length y"
  shows "x = y"
proof -
  from assms(1) have "\<forall>i\<in>{..<length x}. (x ! i - y ! i)\<^sup>2 = 0"
    unfolding squared_euclidean_def by (subst (asm) sum_nonneg_eq_0_iff) simp_all
  then have "\<forall>i<length x. x ! i = y ! i" by simp
  with assms(2) show ?thesis by (simp add: list_eq_iff_nth_eq)
qed

lemma argmin_scan_first_minimum:
  assumes "mi < length pre" and "pre ! mi = mp" and "\<forall>k<length pre. mp \<le> pre ! k"
    and "\<forall>k<mi. mp < pre ! k" and "i = length pre"
  shows "argmin_scan mp mi i xs < length (pre @ xs) \<and>
         (\<forall>k<length (pre @ xs). (pre @ xs) ! argmin_scan mp mi i xs \<le> (pre @ xs) ! k) \<and>
         (\<forall>k<argmin_scan mp mi i xs. (pre @ xs) ! argmin_scan mp mi i xs < (pre @ xs) ! k)"
  using assms
proof (induction xs arbitrary: pre mp mi i)
  case Nil
  then show ?case by simp
next
  case (Cons x xs)
  show ?case
  proof (cases "x < mp")
    case True
    have "argmin_scan x (length pre) (Suc (length pre)) xs < length ((pre @ [x]) @ xs) \<and>
         (\<forall>k<length ((pre @ [x]) @ xs).
            ((pre @ [x]) @ xs) ! argmin_scan x (length pre) (Suc (length pre)) xs
              \<le> ((pre @ [x]) @ xs) ! k) \<and>
         (\<forall>k<argmin_scan x (length pre) (Suc (length pre)) xs.
            ((pre @ [x]) @ xs) ! argmin_scan x (length pre) (Suc (length pre)) xs
              < ((pre @ [x]) @ xs) ! k)"
    proof (rule Cons.IH)
      show "\<forall>k<length (pre @ [x]). x \<le> (pre @ [x]) ! k"
        using True Cons.prems(3) by (auto simp: nth_append less_Suc_eq dest: spec)
      show "\<forall>k<length pre. x < (pre @ [x]) ! k"
        using True Cons.prems(3) by (auto simp: nth_append)
    qed simp_all
    with True Cons.prems(5) show ?thesis by simp
  next
    case False
    have "argmin_scan mp mi (Suc (length pre)) xs < length ((pre @ [x]) @ xs) \<and>
         (\<forall>k<length ((pre @ [x]) @ xs).
            ((pre @ [x]) @ xs) ! argmin_scan mp mi (Suc (length pre)) xs
              \<le> ((pre @ [x]) @ xs) ! k) \<and>
         (\<forall>k<argmin_scan mp mi (Suc (length pre)) xs.
            ((pre @ [x]) @ xs) ! argmin_scan mp mi (Suc (length pre)) xs
              < ((pre @ [x]) @ xs) ! k)"
    proof (rule Cons.IH)
      show "mi < length (pre @ [x])" using Cons.prems(1) by simp
      show "(pre @ [x]) ! mi = mp" using Cons.prems(1,2) by (simp add: nth_append)
      show "\<forall>k<length (pre @ [x]). mp \<le> (pre @ [x]) ! k"
        using False Cons.prems(3) by (auto simp: nth_append less_Suc_eq)
      show "\<forall>k<mi. mp < (pre @ [x]) ! k"
        using Cons.prems(1,4) by (auto simp: nth_append)
    qed simp
    with False Cons.prems(5) show ?thesis by simp
  qed
qed

lemma first_minimum_spec:
  assumes "ys \<noteq> []"
  shows "first_minimum ys < length ys \<and>
         (\<forall>k<length ys. ys ! first_minimum ys \<le> ys ! k) \<and>
         (\<forall>k<first_minimum ys. ys ! first_minimum ys < ys ! k)"
proof -
  from assms obtain x rest where ys: "ys = x # rest" by (cases ys) auto
  from argmin_scan_first_minimum [of 0 "[x]" x 1 rest]
  show ?thesis by (simp add: ys first_minimum_def)
qed

lemma argmin_first_minimum:
  "ys \<noteq> [] \<Longrightarrow> argmin ys = Inr (first_minimum ys)"
  by (cases ys) (simp_all add: argmin_def first_minimum_def)

subsection \<open>The distance array and the matching loop\<close>

lemma stage_slice:
  assumes "\<forall>trajectory\<in>set samples. t < length trajectory"
  shows "py_map (\<lambda>trajectory. getitem trajectory t) samples
           = Inr (map (\<lambda>trajectory. trajectory ! t) samples)"
  using assms by (intro py_map_all_Inr) (simp add: getitem_def)

lemma distance_column:
  assumes "\<forall>trajectory\<in>set samples. t < length trajectory \<and> length (trajectory ! t) = d"
    and "length state = d"
  shows "py_bind (py_map (\<lambda>trajectory. getitem trajectory t) samples) (\<lambda>slice.
           py_map (\<lambda>row. squared_distance row state) slice)
         = Inr (map (\<lambda>trajectory. squared_euclidean (trajectory ! t) state) samples)"
proof -
  have "py_map (\<lambda>row. squared_distance row state) (map (\<lambda>trajectory. trajectory ! t) samples)
          = Inr (map (\<lambda>row. squared_euclidean row state)
                   (map (\<lambda>trajectory. trajectory ! t) samples))"
    using assms by (intro py_map_all_Inr) (auto simp: squared_distance_euclidean)
  with stage_slice [of samples t] assms show ?thesis by (simp add: comp_def)
qed

lemma fill_dist_spec:
  assumes "\<forall>trajectory\<in>set samples. t < length trajectory \<and> length (trajectory ! t) = d"
    and "\<forall>state\<in>set states. length state = d"
    and "length (rows distances) = length samples"
    and "\<forall>row\<in>set (rows distances). length row = n_cols distances"
    and "idx + length states \<le> n_cols distances"
  shows "\<exists>filled. fill_dist samples t distances idx states = Inr filled \<and>
           n_cols filled = n_cols distances \<and>
           length (rows filled) = length samples \<and>
           (\<forall>j<length samples. length (rows filled ! j) = n_cols distances \<and>
              (\<forall>k<n_cols distances. rows filled ! j ! k =
                 (if idx \<le> k \<and> k < idx + length states
                  then squared_euclidean (samples ! j ! t) (states ! (k - idx))
                  else rows distances ! j ! k)))"
  using assms
proof (induction states arbitrary: distances idx)
  case Nil
  then show ?case by simp
next
  case (Cons state states)
  let ?column = "map (\<lambda>trajectory. squared_euclidean (trajectory ! t) state) samples"
  let ?d1 = "distances\<lparr>rows := map (\<lambda>(row, x). row[idx := x]) (zip (rows distances) ?column)\<rparr>"
  from Cons.prems have col: "py_bind (py_map (\<lambda>trajectory. getitem trajectory t) samples) (\<lambda>slice.
           py_map (\<lambda>row. squared_distance row state) slice) = Inr ?column"
    by (intro distance_column) auto
  have set: "set_column distances idx ?column = Inr ?d1"
    using Cons.prems by (intro set_column_exact) auto
  have step: "fill_dist samples t distances idx (state # states)
                = fill_dist samples t ?d1 (Suc idx) states"
  proof -
    from col obtain slice where s: "py_map (\<lambda>trajectory. getitem trajectory t) samples = Inr slice"
      and c: "py_map (\<lambda>row. squared_distance row state) slice = Inr ?column"
      by (rule py_bindE)
    show ?thesis by (simp add: s c set)
  qed
  have "\<exists>filled. fill_dist samples t ?d1 (Suc idx) states = Inr filled \<and>
           n_cols filled = n_cols ?d1 \<and>
           length (rows filled) = length samples \<and>
           (\<forall>j<length samples. length (rows filled ! j) = n_cols ?d1 \<and>
              (\<forall>k<n_cols ?d1. rows filled ! j ! k =
                 (if Suc idx \<le> k \<and> k < Suc idx + length states
                  then squared_euclidean (samples ! j ! t) (states ! (k - Suc idx))
                  else rows ?d1 ! j ! k)))"
    using Cons.prems by (intro Cons.IH) (auto simp: set_zip)
  then obtain filled where f: "fill_dist samples t ?d1 (Suc idx) states = Inr filled"
    and n: "n_cols filled = n_cols distances" "length (rows filled) = length samples"
    and r: "\<forall>j<length samples. length (rows filled ! j) = n_cols distances \<and>
              (\<forall>k<n_cols distances. rows filled ! j ! k =
                 (if Suc idx \<le> k \<and> k < Suc idx + length states
                  then squared_euclidean (samples ! j ! t) (states ! (k - Suc idx))
                  else rows ?d1 ! j ! k))"
    by auto
  have d1: "rows ?d1 ! j ! k =
              (if k = idx then squared_euclidean (samples ! j ! t) state
               else rows distances ! j ! k)"
    if "j < length samples" "k < n_cols distances" for j k
    using that Cons.prems(3,4) by (auto simp: nth_list_update)
  have "rows filled ! j ! k =
          (if idx \<le> k \<and> k < idx + length (state # states)
           then squared_euclidean (samples ! j ! t) ((state # states) ! (k - idx))
           else rows distances ! j ! k)"
    if "j < length samples" "k < n_cols distances" for j k
  proof -
    from r that have "rows filled ! j ! k =
                 (if Suc idx \<le> k \<and> k < Suc idx + length states
                  then squared_euclidean (samples ! j ! t) (states ! (k - Suc idx))
                  else rows ?d1 ! j ! k)" by simp
    with d1 [OF that] show ?thesis
      by (auto simp: nth_Cons' Suc_le_eq)
  qed
  with f n r step show ?case by simp
qed

lemma match_stage_spec:
  assumes traj: "trajectories_ok samples n horizon d"
    and st: "stage_ok M d t" and t: "t < horizon"
    and idx: "index_shape n horizon idx"
  shows "\<exists>idx'. match_stage C M samples n t idx = Inr idx' \<and> index_shape n horizon idx' \<and>
           (\<forall>j<n. \<forall>c<horizon. rows idx' ! j ! c =
              (if c = t then nearest_state M samples j t else rows idx ! j ! c))"
proof -
  from st obtain ns where ns: "n_Markov_states M = Stages ns" "t < length ns"
    "t < length (Markov_states M)" "length (Markov_states M ! t) = ns ! t" "0 < ns ! t"
    "\<forall>state\<in>set (Markov_states M ! t). length state = d"
    by (auto simp: stage_ok_def split: n_Markov.splits)
  let ?K = "ns ! t"
  let ?states = "Markov_states M ! t"
  let ?d0 = "\<lparr>n_cols = ?K, rows = map (\<lambda>j. map (uninitialised C t j) [0..<?K]) [0..<n]\<rparr>"
  from traj have len: "length samples = n"
    and each: "\<forall>trajectory\<in>set samples. t < length trajectory \<and> length (trajectory ! t) = d"
    using t by (auto simp: trajectories_ok_def list_all_iff)
  have "\<exists>filled. fill_dist samples t ?d0 0 ?states = Inr filled \<and>
           n_cols filled = n_cols ?d0 \<and>
           length (rows filled) = length samples \<and>
           (\<forall>j<length samples. length (rows filled ! j) = n_cols ?d0 \<and>
              (\<forall>k<n_cols ?d0. rows filled ! j ! k =
                 (if 0 \<le> k \<and> k < 0 + length ?states
                  then squared_euclidean (samples ! j ! t) (?states ! (k - 0))
                  else rows ?d0 ! j ! k)))"
    using each ns len by (intro fill_dist_spec [where d = d]) auto
  then obtain filled where f: "fill_dist samples t ?d0 0 ?states = Inr filled"
    and fc: "n_cols filled = ?K" and fr: "length (rows filled) = n"
    and fe: "\<forall>j<n. length (rows filled ! j) = ?K \<and>
              (\<forall>k<?K. rows filled ! j ! k = squared_euclidean (samples ! j ! t) (?states ! k))"
    using ns len by auto
  have row: "rows filled ! j = map (squared_euclidean (samples ! j ! t)) ?states" if "j < n" for j
    using fe that ns by (auto simp: list_eq_iff_nth_eq)
  have "\<forall>row\<in>set (rows filled). argmin row = Inr (first_minimum row)"
  proof
    fix row assume "row \<in> set (rows filled)"
    then obtain j where "j < n" "row = rows filled ! j" using fr by (auto simp: in_set_conv_nth)
    with fe ns have "row \<noteq> []" by auto
    then show "argmin row = Inr (first_minimum row)" by (rule argmin_first_minimum)
  qed
  then have am: "py_map argmin (rows filled) = Inr (map first_minimum (rows filled))"
    by (rule py_map_all_Inr)
  let ?ks = "map first_minimum (rows filled)"
  let ?idx' = "idx\<lparr>rows := map (\<lambda>(row, x). row[t := x]) (zip (rows idx) ?ks)\<rparr>"
  from idx t fr have sc: "set_column idx t ?ks = Inr ?idx'"
    by (intro set_column_exact) (auto simp: index_shape_def)
  have ms: "match_stage C M samples n t idx = Inr ?idx'"
    using ns f fc am sc by (simp add: match_stage_def getitem_def)
  have ks: "?ks ! j = nearest_state M samples j t" if "j < n" for j
    using that fr row by (simp add: nearest_state_def)
  have "index_shape n horizon ?idx'"
    using idx fr by (auto simp: index_shape_def)
  moreover have "rows ?idx' ! j ! c =
              (if c = t then nearest_state M samples j t else rows idx ! j ! c)"
    if "j < n" "c < horizon" for j c
    using that idx fr ks by (auto simp: index_shape_def)
  ultimately show ?thesis using ms by blast
qed

lemma match_stages_spec:
  assumes traj: "trajectories_ok samples n horizon d"
    and st: "\<forall>t\<in>set ts. stage_ok M d t \<and> t < horizon"
    and idx: "index_shape n horizon idx"
  shows "\<exists>idx'. match_stages C M samples n ts idx = Inr idx' \<and> index_shape n horizon idx' \<and>
           (\<forall>j<n. \<forall>c<horizon. rows idx' ! j ! c =
              (if c \<in> set ts then nearest_state M samples j c else rows idx ! j ! c))"
  using st idx
proof (induction ts arbitrary: idx)
  case Nil
  then show ?case by simp
next
  case (Cons t ts)
  from match_stage_spec [OF traj _ _ Cons.prems(2), of M t C] Cons.prems(1)
  obtain idx1 where a: "match_stage C M samples n t idx = Inr idx1"
    and s1: "index_shape n horizon idx1"
    and r1: "\<forall>j<n. \<forall>c<horizon. rows idx1 ! j ! c =
              (if c = t then nearest_state M samples j t else rows idx ! j ! c)"
    by auto
  from Cons.IH [OF _ s1] Cons.prems(1)
  obtain idx' where b: "match_stages C M samples n ts idx1 = Inr idx'"
    and s2: "index_shape n horizon idx'"
    and r2: "\<forall>j<n. \<forall>c<horizon. rows idx' ! j ! c =
              (if c \<in> set ts then nearest_state M samples j c else rows idx1 ! j ! c)"
    by auto
  from a b have "match_stages C M samples n (t # ts) idx = Inr idx'" by simp
  moreover from r1 r2 have "\<forall>j<n. \<forall>c<horizon. rows idx' ! j ! c =
              (if c \<in> set (t # ts) then nearest_state M samples j c else rows idx ! j ! c)"
    by auto
  ultimately show ?case using s2 by blast
qed

lemma Markov_states_ok_stage:
  assumes "Markov_states_ok M d" and "1 \<le> t" and "t < T M"
  shows "stage_ok M d t"
  using assms
  by (auto simp: Markov_states_ok_def stage_ok_def list_all_iff split: n_Markov.splits)

lemma trajectories_ok_nth:
  assumes "trajectories_ok samples n horizon d" and "j < n" and "t < horizon"
  shows "length (samples ! j ! t) = d"
proof -
  from assms(1,2) have "samples ! j \<in> set samples" by (simp add: trajectories_ok_def)
  with assms(1) have len: "length (samples ! j) = horizon"
    and rows: "\<forall>row\<in>set (samples ! j). length row = d"
    by (simp_all add: trajectories_ok_def list_all_iff)
  from len assms(3) have "samples ! j ! t \<in> set (samples ! j)" by simp
  with rows show ?thesis by simp
qed

lemma compute_paths_Markovian:
  assumes "cls e = Class_EvaluationTrue" and "type' (MSP e) = Markovian"
    and "n_simulations e = Some (int n)" and "random_state e = Some rs"
    and "Markovian_uncertainty C rs (int n) = Inr (samples, rs')"
    and "trajectories_ok samples n (T (MSP e)) d" and "Markov_states_ok (MSP e) d"
  shows "compute_sample_path_idx_and_markovian_path C e =
           Inr (e\<lparr>n_sample_paths := Some (int n), solve_true := True,
                  markovian_samples := Some samples, random_state := Some rs',
                  markovian_idx := Some (map (\<lambda>j. map (\<lambda>t. if 1 \<le> t
                       then nearest_state (MSP e) samples j t else 0) [0..<T (MSP e)])
                     [0..<n])\<rparr>)"
proof -
  let ?h = "T (MSP e)"
  have "index_shape n ?h (full n ?h 0)" by (simp add: index_shape_def full_def)
  moreover have "\<forall>t\<in>set [1..<?h]. stage_ok (MSP e) d t \<and> t < ?h"
    using Markov_states_ok_stage [OF assms(7)] by simp
  ultimately obtain idx where m: "match_stages C (MSP e) samples n [1..<?h] (full n ?h 0) = Inr idx"
    and s: "index_shape n ?h idx"
    and r: "\<forall>j<n. \<forall>c<?h. rows idx ! j ! c =
              (if c \<in> set [1..<?h] then nearest_state (MSP e) samples j c
               else rows (full n ?h (0::nat)) ! j ! c)"
    using match_stages_spec [OF assms(6), of "[1..<?h]" "MSP e" "full n ?h 0" C] by blast
  have "rows idx = map (\<lambda>j. map (\<lambda>t. if 1 \<le> t
                       then nearest_state (MSP e) samples j t else 0) [0..<?h]) [0..<n]"
    using s r by (auto simp: list_eq_iff_nth_eq index_shape_def full_def)
  with m assms(1-5) show ?thesis
    by (simp add: compute_sample_path_idx_and_markovian_path_def)
qed

lemma nearest_state_spec:
  assumes "trajectories_ok samples n horizon d" and "stage_ok M d t"
    and "j < n" and "t < horizon"
  shows "nearest_state M samples j t < length (Markov_states M ! t) \<and>
     (\<forall>k<length (Markov_states M ! t).
        squared_euclidean (samples ! j ! t) (MarkovState M t (nearest_state M samples j t))
          \<le> squared_euclidean (samples ! j ! t) (MarkovState M t k)) \<and>
     (\<forall>k<nearest_state M samples j t.
        squared_euclidean (samples ! j ! t) (MarkovState M t (nearest_state M samples j t))
          < squared_euclidean (samples ! j ! t) (MarkovState M t k)) \<and>
     (\<forall>k<length (Markov_states M ! t). samples ! j ! t = MarkovState M t k \<longrightarrow>
        MarkovState M t (nearest_state M samples j t) = samples ! j ! t \<and>
        nearest_state M samples j t \<le> k \<and>
        (distinct (Markov_states M ! t) \<longrightarrow> nearest_state M samples j t = k))"
proof -
  let ?states = "Markov_states M ! t"
  let ?x = "samples ! j ! t"
  let ?ys = "map (squared_euclidean ?x) ?states"
  let ?k = "nearest_state M samples j t"
  from assms(2) have ne: "?states \<noteq> []" and dim: "\<forall>state\<in>set ?states. length state = d"
    by (auto simp: stage_ok_def split: n_Markov.splits)
  from assms(1,3,4) have x: "length ?x = d"
    by (rule trajectories_ok_nth)
  from ne have "?ys \<noteq> []" by simp
  from first_minimum_spec [OF this]
  have fm: "first_minimum ?ys < length ?ys"
    "\<forall>k<length ?ys. ?ys ! first_minimum ?ys \<le> ?ys ! k"
    "\<forall>k<first_minimum ?ys. ?ys ! first_minimum ?ys < ?ys ! k"
    by blast+
  have kdef: "?k = first_minimum ?ys" by (simp add: nearest_state_def)
  from fm(1) have k: "?k < length ?states" by (simp add: kdef)
  have at_k: "?ys ! first_minimum ?ys = squared_euclidean ?x (?states ! ?k)"
    using k by (simp add: kdef)
  have min: "squared_euclidean ?x (?states ! ?k) \<le> squared_euclidean ?x (?states ! k')"
    if "k' < length ?states" for k'
  proof -
    from that have "k' < length ?ys" by simp
    with fm(2) have "?ys ! first_minimum ?ys \<le> ?ys ! k'" by blast
    with at_k that show ?thesis by simp
  qed
  have strict: "squared_euclidean ?x (?states ! ?k) < squared_euclidean ?x (?states ! k')"
    if "k' < ?k" for k'
  proof -
    from that have "k' < first_minimum ?ys" by (simp add: kdef)
    with fm(3) have "?ys ! first_minimum ?ys < ?ys ! k'" by blast
    moreover from that k have "k' < length ?states" by simp
    ultimately show ?thesis using at_k by simp
  qed
  have exact: "?states ! ?k = ?x \<and> ?k \<le> k0 \<and> (distinct ?states \<longrightarrow> ?k = k0)"
    if k0: "k0 < length ?states" and x0: "?x = ?states ! k0" for k0
  proof -
    have "squared_euclidean ?x (?states ! k0) = 0"
      unfolding x0 [symmetric] by (rule squared_euclidean_self)
    with min [OF k0] have "squared_euclidean ?x (?states ! ?k) \<le> 0" by (simp only:)
    with squared_euclidean_nonneg [of ?x "?states ! ?k"]
    have z: "squared_euclidean ?x (?states ! ?k) = 0" by (rule antisym [rotated])
    from dim k have "length (?states ! ?k) = d" by simp
    with x have "length ?x = length (?states ! ?k)" by (simp only:)
    from squared_euclidean_zero [OF z this] have eq: "?states ! ?k = ?x" by (rule sym)
    have le: "?k \<le> k0"
    proof (rule ccontr)
      assume "\<not> ?k \<le> k0"
      then have "k0 < ?k" by simp
      from strict [OF this] have "squared_euclidean ?x (?states ! ?k)
                                    < squared_euclidean ?x (?states ! k0)" .
      also have "\<dots> = 0" unfolding x0 [symmetric] by (rule squared_euclidean_self)
      finally show False using z by (simp only: less_irrefl)
    qed
    have "?k = k0" if d: "distinct ?states"
    proof -
      from eq x0 have "?states ! ?k = ?states ! k0" by (rule trans)
      with nth_eq_iff_index_eq [OF d k k0] show ?thesis by (rule iffD1)
    qed
    with eq le show ?thesis by blast
  qed
  show ?thesis
    unfolding MarkovState_def
  proof (intro conjI allI impI)
    show "?k < length ?states" by (rule k)
  next
    fix k' assume "k' < length ?states"
    then show "squared_euclidean ?x (?states ! ?k) \<le> squared_euclidean ?x (?states ! k')"
      by (rule min)
  next
    fix k' assume "k' < ?k"
    then show "squared_euclidean ?x (?states ! ?k) < squared_euclidean ?x (?states ! k')"
      by (rule strict)
  next
    fix k0 assume "k0 < length ?states" "?x = ?states ! k0"
    from exact [OF this] show "?states ! ?k = ?x" by (rule conjunct1)
  next
    fix k0 assume "k0 < length ?states" "?x = ?states ! k0"
    from exact [OF this] show "?k \<le> k0" by blast
  next
    fix k0 assume "k0 < length ?states" "?x = ?states ! k0" "distinct ?states"
    from exact [OF this(1,2)] this(3) show "?k = k0" by blast
  qed

qed

text \<open>
  Claim C6, as amended. For trajectories and Markov states of matching shapes the matcher
  returns, and for each path \<open>j\<close> and each stage \<open>t \<ge> 1\<close> the matched index is an index of
  a Markov state of stage \<open>t\<close> whose squared Euclidean distance to the trajectory's value is
  minimal, and it is the lowest such index. The result does not depend on the contents of
  the uninitialised distance array. A trajectory value equal to \<open>MarkovState(t, k)\<close> is matched
  to the lowest index whose state equals it: to a state equal to the value, at an index at
  most \<open>k\<close>, and to \<open>k\<close> itself when the states of stage \<open>t\<close> are pairwise distinct.
\<close>

theorem matcher_nearest_state:
  assumes "cls e = Class_EvaluationTrue" and "type' (MSP e) = Markovian"
    and "n_simulations e = Some (int n)" and "random_state e = Some rs"
    and "Markovian_uncertainty C rs (int n) = Inr (samples, rs')"
    and "trajectories_ok samples n (T (MSP e)) d" and "Markov_states_ok (MSP e) d"
  shows "\<exists>e' idx.
     compute_sample_path_idx_and_markovian_path C e = Inr e' \<and>
     compute_sample_path_idx_and_markovian_path (C\<lparr>uninitialised := u\<rparr>) e = Inr e' \<and>
     markovian_samples e' = Some samples \<and> markovian_idx e' = Some idx \<and> length idx = n \<and>
     (\<forall>j<n. \<forall>t. 1 \<le> t \<and> t < T (MSP e) \<longrightarrow>
        idx ! j ! t < length (Markov_states (MSP e) ! t) \<and>
        (\<forall>k<length (Markov_states (MSP e) ! t).
           squared_euclidean (samples ! j ! t) (MarkovState (MSP e) t (idx ! j ! t))
             \<le> squared_euclidean (samples ! j ! t) (MarkovState (MSP e) t k)) \<and>
        (\<forall>k<idx ! j ! t.
           squared_euclidean (samples ! j ! t) (MarkovState (MSP e) t (idx ! j ! t))
             < squared_euclidean (samples ! j ! t) (MarkovState (MSP e) t k)) \<and>
        (\<forall>k<length (Markov_states (MSP e) ! t).
           samples ! j ! t = MarkovState (MSP e) t k \<longrightarrow>
             MarkovState (MSP e) t (idx ! j ! t) = samples ! j ! t \<and> idx ! j ! t \<le> k \<and>
             (distinct (Markov_states (MSP e) ! t) \<longrightarrow> idx ! j ! t = k)))"
proof -
  let ?idx = "map (\<lambda>j. map (\<lambda>t. if 1 \<le> t
                       then nearest_state (MSP e) samples j t else 0) [0..<T (MSP e)]) [0..<n]"
  let ?e' = "e\<lparr>n_sample_paths := Some (int n), solve_true := True,
                  markovian_samples := Some samples, random_state := Some rs',
                  markovian_idx := Some ?idx\<rparr>"
  have a: "compute_sample_path_idx_and_markovian_path C e = Inr ?e'"
    using assms by (rule compute_paths_Markovian)
  have b: "compute_sample_path_idx_and_markovian_path (C\<lparr>uninitialised := u\<rparr>) e = Inr ?e'"
    using assms by (intro compute_paths_Markovian) simp_all
  have c: "?idx ! j ! t = nearest_state (MSP e) samples j t"
    if "j < n" "1 \<le> t" "t < T (MSP e)" for j t
    using that by simp
  have main: "\<forall>j<n. \<forall>t. 1 \<le> t \<and> t < T (MSP e) \<longrightarrow>
        ?idx ! j ! t < length (Markov_states (MSP e) ! t) \<and>
        (\<forall>k<length (Markov_states (MSP e) ! t).
           squared_euclidean (samples ! j ! t) (MarkovState (MSP e) t (?idx ! j ! t))
             \<le> squared_euclidean (samples ! j ! t) (MarkovState (MSP e) t k)) \<and>
        (\<forall>k<?idx ! j ! t.
           squared_euclidean (samples ! j ! t) (MarkovState (MSP e) t (?idx ! j ! t))
             < squared_euclidean (samples ! j ! t) (MarkovState (MSP e) t k)) \<and>
        (\<forall>k<length (Markov_states (MSP e) ! t).
           samples ! j ! t = MarkovState (MSP e) t k \<longrightarrow>
             MarkovState (MSP e) t (?idx ! j ! t) = samples ! j ! t \<and> ?idx ! j ! t \<le> k \<and>
             (distinct (Markov_states (MSP e) ! t) \<longrightarrow> ?idx ! j ! t = k))"
  proof (intro allI impI)
    fix j t assume j: "j < n" and t: "1 \<le> t \<and> t < T (MSP e)"
    from t have t1: "1 \<le> t" and t2: "t < T (MSP e)" by simp_all
    from nearest_state_spec [OF assms(6) Markov_states_ok_stage [OF assms(7) t1 t2] j t2]
    show "?idx ! j ! t < length (Markov_states (MSP e) ! t) \<and>
        (\<forall>k<length (Markov_states (MSP e) ! t).
           squared_euclidean (samples ! j ! t) (MarkovState (MSP e) t (?idx ! j ! t))
             \<le> squared_euclidean (samples ! j ! t) (MarkovState (MSP e) t k)) \<and>
        (\<forall>k<?idx ! j ! t.
           squared_euclidean (samples ! j ! t) (MarkovState (MSP e) t (?idx ! j ! t))
             < squared_euclidean (samples ! j ! t) (MarkovState (MSP e) t k)) \<and>
        (\<forall>k<length (Markov_states (MSP e) ! t).
           samples ! j ! t = MarkovState (MSP e) t k \<longrightarrow>
             MarkovState (MSP e) t (?idx ! j ! t) = samples ! j ! t \<and> ?idx ! j ! t \<le> k \<and>
             (distinct (Markov_states (MSP e) ! t) \<longrightarrow> ?idx ! j ! t = k))"
      unfolding c [OF j t1 t2] .
  qed
  show ?thesis
  proof (intro exI conjI)
    show "compute_sample_path_idx_and_markovian_path C e = Inr ?e'" by (rule a)
    show "compute_sample_path_idx_and_markovian_path (C\<lparr>uninitialised := u\<rparr>) e = Inr ?e'"
      by (rule b)
    show "markovian_samples ?e' = Some samples" by simp
    show "markovian_idx ?e' = Some ?idx" by simp
    show "length ?idx = n" by simp
    show "\<forall>j<n. \<forall>t. 1 \<le> t \<and> t < T (MSP e) \<longrightarrow>
        ?idx ! j ! t < length (Markov_states (MSP e) ! t) \<and>
        (\<forall>k<length (Markov_states (MSP e) ! t).
           squared_euclidean (samples ! j ! t) (MarkovState (MSP e) t (?idx ! j ! t))
             \<le> squared_euclidean (samples ! j ! t) (MarkovState (MSP e) t k)) \<and>
        (\<forall>k<?idx ! j ! t.
           squared_euclidean (samples ! j ! t) (MarkovState (MSP e) t (?idx ! j ! t))
             < squared_euclidean (samples ! j ! t) (MarkovState (MSP e) t k)) \<and>
        (\<forall>k<length (Markov_states (MSP e) ! t).
           samples ! j ! t = MarkovState (MSP e) t k \<longrightarrow>
             MarkovState (MSP e) t (?idx ! j ! t) = samples ! j ! t \<and> ?idx ! j ! t \<le> k \<and>
             (distinct (Markov_states (MSP e) ! t) \<longrightarrow> ?idx ! j ! t = k))"
      by (rule main)
  qed
qed

theorem matcher_nearest_state_witness:
  "\<exists>e' idx.
     compute_sample_path_idx_and_markovian_path example_collaborators example_evaluation
       = Inr e' \<and>
     compute_sample_path_idx_and_markovian_path
       (example_collaborators\<lparr>uninitialised := (\<lambda>t j k. 5)\<rparr>) example_evaluation = Inr e' \<and>
     markovian_samples e' = Some [[[0], [1], [2]], [[0], [1], [2]]] \<and>
     markovian_idx e' = Some idx \<and> length idx = 2 \<and>
     (\<forall>j<2. \<forall>t. 1 \<le> t \<and> t < T (MSP example_evaluation) \<longrightarrow>
        idx ! j ! t < length (Markov_states (MSP example_evaluation) ! t) \<and>
        (\<forall>k<length (Markov_states (MSP example_evaluation) ! t).
           squared_euclidean ([[[0], [1], [2]], [[0], [1], [2]]] ! j ! t)
               (MarkovState (MSP example_evaluation) t (idx ! j ! t))
             \<le> squared_euclidean ([[[0], [1], [2]], [[0], [1], [2]]] ! j ! t)
                 (MarkovState (MSP example_evaluation) t k)) \<and>
        (\<forall>k<idx ! j ! t.
           squared_euclidean ([[[0], [1], [2]], [[0], [1], [2]]] ! j ! t)
               (MarkovState (MSP example_evaluation) t (idx ! j ! t))
             < squared_euclidean ([[[0], [1], [2]], [[0], [1], [2]]] ! j ! t)
                 (MarkovState (MSP example_evaluation) t k)) \<and>
        (\<forall>k<length (Markov_states (MSP example_evaluation) ! t).
           [[[0], [1], [2]], [[0], [1], [2]]] ! j ! t = MarkovState (MSP example_evaluation) t k \<longrightarrow>
             MarkovState (MSP example_evaluation) t (idx ! j ! t)
               = [[[0], [1], [2]], [[0], [1], [2]]] ! j ! t \<and>
             idx ! j ! t \<le> k \<and>
             (distinct (Markov_states (MSP example_evaluation) ! t) \<longrightarrow> idx ! j ! t = k)))"
proof (rule matcher_nearest_state [where rs = "([7], 0)" and rs' = "([7], 1)" and d = 1])
  show "cls example_evaluation = Class_EvaluationTrue" by code_simp
  show "type' (MSP example_evaluation) = Markovian" by code_simp
  show "n_simulations example_evaluation = Some (int 2)" by code_simp
  show "random_state example_evaluation = Some ([7], 0)" by code_simp
  show "Markovian_uncertainty example_collaborators ([7], 0) (int 2)
          = Inr ([[[0], [1], [2]], [[0], [1], [2]]], [7], 1)" by code_simp
  show "trajectories_ok [[[0], [1], [2]], [[0], [1], [2]]] 2 (T (MSP example_evaluation)) 1"
    by code_simp
  show "Markov_states_ok (MSP example_evaluation) 1" by code_simp
qed

text \<open>
  Counterexample to claim C6 as stated: when the two Markov states of stage \<open>1\<close> are the same
  vector, a trajectory whose value at stage \<open>1\<close> equals \<open>MarkovState(1, 1)\<close> is matched to index
  \<open>0\<close>, not \<open>1\<close>.
\<close>

theorem matcher_exact_match_not_k:
  "map_sum id markovian_samples
     (compute_sample_path_idx_and_markovian_path example_collaborators
        ((init Class_EvaluationTrue example_duplicate)
           \<lparr>n_simulations := Some 1, random_state := Some ([7], 0)\<rparr>))
     = Inr (Some [[[0], [1], [2]]])
   \<and> map_sum id markovian_idx
     (compute_sample_path_idx_and_markovian_path example_collaborators
        ((init Class_EvaluationTrue example_duplicate)
           \<lparr>n_simulations := Some 1, random_state := Some ([7], 0)\<rparr>))
     = Inr (Some [[0, 0, 0]])
   \<and> MarkovState example_duplicate 1 1 = [1]
   \<and> MarkovState example_duplicate 1 0 = [1]"
  by code_simp

lemma example_evaluation_returns:
  "(case compute_sample_path_idx_and_markovian_path example_collaborators example_evaluation of
      Inl err \<Rightarrow> False | Inr e' \<Rightarrow> True)"
  by code_simp

theorem matched_index_stage0_witness:
  "\<exists>e' n idx.
     compute_sample_path_idx_and_markovian_path example_collaborators example_evaluation
       = Inr e' \<and>
     n_simulations example_evaluation = Some (int n) \<and> markovian_idx e' = Some idx \<and>
     length idx = n \<and>
     (\<forall>row\<in>set idx. length row = T (MSP example_evaluation) \<and> row ! 0 = 0)"
proof -
  from example_evaluation_returns obtain e' where
    e': "compute_sample_path_idx_and_markovian_path example_collaborators example_evaluation
           = Inr e'"
    by (auto split: sum.splits)
  have "cls example_evaluation = Class_EvaluationTrue"
    "type' (MSP example_evaluation) = Markovian" "0 < T (MSP example_evaluation)"
    by code_simp+
  from matched_index_stage0 [OF e' this] e' show ?thesis by blast
qed

section \<open>Path weights\<close>

lemma wf_independent_stage:
  assumes "wf_independent M" and "t < T M"
  shows "models M ! t = Single (stage_model M t k) \<and> model_ok (stage_model M t k)"
proof -
  from assms have "models M ! t \<in> set (models M)" by (simp add: wf_independent_def)
  with assms(1) show ?thesis
    by (auto simp: wf_independent_def list_all_iff stage_model_def split: stage_models.splits)
qed

lemma model_probability_nth:
  assumes "model_ok m" and "i < n_samples m"
  shows "length (model_probability m) = n_samples m"
    and "model_probability m ! i = (case probability m of Some p \<Rightarrow> p ! i
                                     | None \<Rightarrow> 1 / real (n_samples m))"
  using assms by (auto simp: model_ok_def model_probability_def split: option.splits)

lemma model_probability_length:
  "model_ok m \<Longrightarrow> length (model_probability m) = n_samples m"
  by (auto simp: model_ok_def model_probability_def split: option.splits)

lemma model_probability_sum:
  "model_ok m \<Longrightarrow> sum_list (model_probability m) = 1"
  by (auto simp: model_ok_def model_probability_def sum_list_replicate split: option.splits)

lemma set_up_probability_independent:
  assumes "wf_independent M"
  shows "set_up_probability M
           = Inr (Stagewise (map (\<lambda>t. model_probability (stage_model M t 0)) [0..<T M]))"
proof -
  have "py_map (\<lambda>t. py_bind (getitem (models M) t) (\<lambda>sm.
                          py_bind (single_model sm) (\<lambda>m. Inr (model_probability m))))
               [0..<T M]
          = Inr (map (\<lambda>t. model_probability (stage_model M t 0)) [0..<T M])"
  proof (rule py_map_all_Inr, rule ballI)
    fix t assume "t \<in> set [0..<T M]"
    then have t: "t < T M" by simp
    from wf_independent_stage [OF assms t, of 0] assms t
    show "py_bind (getitem (models M) t) (\<lambda>sm.
                          py_bind (single_model sm) (\<lambda>m. Inr (model_probability m)))
            = Inr (model_probability (stage_model M t 0))"
      by (simp add: getitem_def wf_independent_def single_model_def)
  qed
  with assms show ?thesis by (simp add: set_up_probability_def wf_independent_def)
qed

lemma prod_list_upt:
  fixes f :: "nat \<Rightarrow> real"
  shows "prod_list (map f [m..<n]) = prod f {m..<n}"
  using prod.distinct_set_conv_list [of "[m..<n]" f] by simp

lemma model_probability_probabilityOf:
  assumes "model_ok (stage_model M t k)" and "i < n_samples (stage_model M t k)"
  shows "model_probability (stage_model M t k) ! i = probabilityOf M t i k"
  using model_probability_nth(2) [OF assms] by (simp add: probabilityOf_def)

lemma weight_independent:
  assumes wf: "wf_independent M" and range: "path_in_range M (Indep sp)"
  shows "compute_weight_sample_path M (Indep sp) = Inr (weightOf M (Indep sp))"
proof -
  let ?pr = "map (\<lambda>t. model_probability (stage_model M t 0)) [0..<T M]"
  from range have len: "length sp \<le> T M"
    and idx: "\<forall>t<length sp. sp ! t < outcome_count M t"
    by (simp_all add: list_all_iff)
  have "py_map (\<lambda>t. py_bind (getitem ?pr t) (\<lambda>row.
                           py_bind (getitem sp t) (\<lambda>i. getitem row i)))
                [0..<length sp]
          = Inr (map (\<lambda>t. probabilityOf M t (sp ! t) 0) [0..<length sp])"
  proof (rule py_map_all_Inr, rule ballI)
    fix t assume "t \<in> set [0..<length sp]"
    then have t: "t < length sp" by simp
    with len have tT: "t < T M" by simp
    from wf_independent_stage [OF wf tT, of 0] have ok: "model_ok (stage_model M t 0)" by simp
    from idx t have i: "sp ! t < n_samples (stage_model M t 0)" by (simp add: outcome_count_def)
    from model_probability_length [OF ok] model_probability_probabilityOf [OF ok i] i t tT
    show "py_bind (getitem ?pr t) (\<lambda>row.
                           py_bind (getitem sp t) (\<lambda>i. getitem row i))
            = Inr (probabilityOf M t (sp ! t) 0)"
      by (simp add: getitem_def)
  qed
  then show ?thesis
    by (simp add: compute_weight_sample_path_def set_up_probability_independent [OF wf]
          prod_list_upt atLeast0LessThan)
qed

lemma wf_Markov_ns:
  assumes "wf_Markov M"
  obtains ns where "n_Markov_states M = Stages ns" "length ns = T M" "length (models M) = T M"
    "length (transition_matrix M) = T M" "ns ! 0 = 1" "0 < T M"
  using assms by (auto simp: wf_Markov_def split: n_Markov.splits)

lemma wf_Markov_stage:
  assumes "wf_Markov M" and "t < T M" and "k < state_count M t"
  shows "\<exists>ms. models M ! t = PerState ms \<and> length ms = state_count M t \<and> k < length ms \<and>
           ms ! k = stage_model M t k \<and> model_ok (stage_model M t k) \<and>
           n_samples (stage_model M t k) = outcome_count M t"
proof -
  from assms(1) obtain ns where ns: "n_Markov_states M = Stages ns"
    and all: "list_all
            (\<lambda>t. case models M ! t of
                   Single m \<Rightarrow> False
                 | PerState ms \<Rightarrow>
                     length ms = ns ! t \<and> ms \<noteq> [] \<and>
                     list_all (\<lambda>m. model_ok m \<and> n_samples m = n_samples (ms ! 0)) ms)
            [0..<T M]"
    by (auto simp: wf_Markov_def split: n_Markov.splits)
  from all assms(2) have "case models M ! t of
                   Single m \<Rightarrow> False
                 | PerState ms \<Rightarrow>
                     length ms = ns ! t \<and> ms \<noteq> [] \<and>
                     list_all (\<lambda>m. model_ok m \<and> n_samples m = n_samples (ms ! 0)) ms"
    by (simp add: list_all_iff)
  then obtain ms where ms: "models M ! t = PerState ms" "length ms = ns ! t"
    and each: "\<forall>m\<in>set ms. model_ok m \<and> n_samples m = n_samples (ms ! 0)"
    by (auto simp: list_all_iff split: stage_models.splits)
  from assms(3) ns ms have k: "k < length ms" by (simp add: state_count_def)
  then have "ms ! k \<in> set ms" by simp
  with each have "model_ok (ms ! k)" "n_samples (ms ! k) = n_samples (ms ! 0)" by simp_all
  with ms k ns show ?thesis
    by (simp add: stage_model_def state_count_def outcome_count_def)
qed

lemma wf_Markov_transition:
  assumes "wf_Markov M" and "1 \<le> t" and "t < T M" and "i < state_count M (t - 1)"
  shows "i < length (transition_matrix M ! t) \<and>
         length (transition_matrix M ! t ! i) = state_count M t \<and>
         sum_list (transition_matrix M ! t ! i) = 1"
proof -
  from assms(1) obtain ns where ns: "n_Markov_states M = Stages ns"
    and all: "list_all
            (\<lambda>t. length (transition_matrix M ! t) = ns ! (t - 1) \<and>
                 list_all (\<lambda>row. length row = ns ! t \<and> sum_list row = 1)
                   (transition_matrix M ! t))
            [1..<T M]"
    by (auto simp: wf_Markov_def split: n_Markov.splits)
  from all assms(2,3) have len: "length (transition_matrix M ! t) = ns ! (t - 1)"
    and rows: "\<forall>row\<in>set (transition_matrix M ! t). length row = ns ! t \<and> sum_list row = 1"
    by (simp_all add: list_all_iff)
  from len assms(4) ns have i: "i < length (transition_matrix M ! t)"
    by (simp add: state_count_def)
  then have "transition_matrix M ! t ! i \<in> set (transition_matrix M ! t)" by simp
  with rows i ns show ?thesis by (simp add: state_count_def)
qed

lemma set_up_probability_Markov:
  assumes wf: "wf_Markov M"
  shows "set_up_probability M
           = Inr (Statewise (map (\<lambda>t. map (\<lambda>k. model_probability (stage_model M t k))
                                       [0..<state_count M t]) [0..<T M]))"
proof -
  from wf obtain ns where ns: "n_Markov_states M = Stages ns" "length ns = T M"
    "length (models M) = T M"
    by (rule wf_Markov_ns)
  let ?sizes = "map (\<lambda>t. ns ! t) [0..<T M]"
  have sizes: "py_map (getitem ns) [0..<T M] = Inr ?sizes"
    using ns by (intro py_map_all_Inr) (simp add: getitem_def)
  have "py_map (\<lambda>t. py_map (\<lambda>k. py_bind (getitem (models M) t) (\<lambda>sm.
                                       py_bind (state_model sm k) (\<lambda>m.
                                       Inr (model_probability m))))
                             [0..<?sizes ! t])
               [0..<T M]
          = Inr (map (\<lambda>t. map (\<lambda>k. model_probability (stage_model M t k))
                                       [0..<state_count M t]) [0..<T M])"
  proof (rule py_map_all_Inr, rule ballI)
    fix t assume "t \<in> set [0..<T M]"
    then have t: "t < T M" by simp
    then have size: "?sizes ! t = state_count M t" using ns by (simp add: state_count_def)
    have "py_map (\<lambda>k. py_bind (getitem (models M) t) (\<lambda>sm.
                                       py_bind (state_model sm k) (\<lambda>m.
                                       Inr (model_probability m))))
                             [0..<state_count M t]
            = Inr (map (\<lambda>k. model_probability (stage_model M t k)) [0..<state_count M t])"
    proof (rule py_map_all_Inr, rule ballI)
      fix k assume "k \<in> set [0..<state_count M t]"
      then have k: "k < state_count M t" by simp
      from wf_Markov_stage [OF wf t k] obtain ms where
        "models M ! t = PerState ms" "k < length ms" "ms ! k = stage_model M t k"
        by blast
      with t ns show "py_bind (getitem (models M) t) (\<lambda>sm.
                                       py_bind (state_model sm k) (\<lambda>m.
                                       Inr (model_probability m)))
              = Inr (model_probability (stage_model M t k))"
        by (simp add: getitem_def state_model_def)
    qed
    with size show "py_map (\<lambda>k. py_bind (getitem (models M) t) (\<lambda>sm.
                                       py_bind (state_model sm k) (\<lambda>m.
                                       Inr (model_probability m))))
                             [0..<?sizes ! t]
            = Inr (map (\<lambda>k. model_probability (stage_model M t k)) [0..<state_count M t])"
      by (simp only:)
  qed
  with sizes ns show ?thesis by (simp add: set_up_probability_def)
qed

lemma weight_Markov:
  assumes wf: "wf_Markov M" and range: "path_in_range M (Mixed s m)"
  shows "compute_weight_sample_path M (Mixed s m) = Inr (weightOf M (Mixed s m))"
proof -
  let ?pr = "map (\<lambda>t. map (\<lambda>k. model_probability (stage_model M t k))
                                       [0..<state_count M t]) [0..<T M]"
  from wf obtain ns where ns: "n_Markov_states M = Stages ns" "length ns = T M"
    "length (transition_matrix M) = T M"
    by (rule wf_Markov_ns)
  from range have len: "length s \<le> T M" "length m = length s"
    and idx: "\<forall>t<length s. m ! t < state_count M t \<and> s ! t < outcome_count M t"
    by (simp_all add: list_all_iff)
  have tr: "py_map (\<lambda>t. py_bind (getitem (transition_matrix M) t) (\<lambda>mat.
                           py_bind (getitem m (t - 1)) (\<lambda>i.
                           py_bind (getitem mat i) (\<lambda>row.
                           py_bind (getitem m t) (\<lambda>j. getitem row j)))))
                [1..<length s]
          = Inr (map (\<lambda>t. transition_matrix M ! t ! (m ! (t - 1)) ! (m ! t)) [1..<length s])"
  proof (rule py_map_all_Inr, rule ballI)
    fix t assume "t \<in> set [1..<length s]"
    then have t: "1 \<le> t" "t < length s" by simp_all
    with len have tT: "t < T M" by simp
    from t idx have i: "m ! (t - 1) < state_count M (t - 1)" and j: "m ! t < state_count M t"
      by simp_all
    from wf_Markov_transition [OF wf t(1) tT i] j t tT len ns
    show "py_bind (getitem (transition_matrix M) t) (\<lambda>mat.
                           py_bind (getitem m (t - 1)) (\<lambda>i.
                           py_bind (getitem mat i) (\<lambda>row.
                           py_bind (getitem m t) (\<lambda>j. getitem row j))))
            = Inr (transition_matrix M ! t ! (m ! (t - 1)) ! (m ! t))"
      by (simp add: getitem_def)
  qed
  have ws: "py_map (\<lambda>t. py_bind (getitem ?pr t) (\<lambda>pt.
                           py_bind (getitem m t) (\<lambda>k.
                           py_bind (getitem pt k) (\<lambda>row.
                           py_bind (getitem s t) (\<lambda>i. getitem row i)))))
                [0..<length s]
          = Inr (map (\<lambda>t. probabilityOf M t (s ! t) (m ! t)) [0..<length s])"
  proof (rule py_map_all_Inr, rule ballI)
    fix t assume "t \<in> set [0..<length s]"
    then have t: "t < length s" by simp
    with len have tT: "t < T M" by simp
    from t idx have k: "m ! t < state_count M t" and i: "s ! t < outcome_count M t"
      by simp_all
    from wf_Markov_stage [OF wf tT k]
    have ok: "model_ok (stage_model M t (m ! t))"
      and n: "n_samples (stage_model M t (m ! t)) = outcome_count M t" by auto
    from i n have i': "s ! t < n_samples (stage_model M t (m ! t))" by simp
    from model_probability_length [OF ok] model_probability_probabilityOf [OF ok i']
      i' k t tT len
    show "py_bind (getitem ?pr t) (\<lambda>pt.
                           py_bind (getitem m t) (\<lambda>k.
                           py_bind (getitem pt k) (\<lambda>row.
                           py_bind (getitem s t) (\<lambda>i. getitem row i))))
            = Inr (probabilityOf M t (s ! t) (m ! t))"
      by (simp add: getitem_def)
  qed
  show ?thesis
    using tr ws
    by (simp add: compute_weight_sample_path_def set_up_probability_Markov [OF wf]
          prod_list_upt atLeast0LessThan)
qed

section \<open>Sums over the enumeration\<close>

lemma length_product_lists_prod:
  "length (product_lists xss) = prod_list (map length xss)"
  by (induction xss) (simp_all add: length_concat o_def sum_list_triv)

lemma product_lists_upt_range:
  assumes "p \<in> set (product_lists (map (\<lambda>t. [0..<c t]) [0..<n]))"
  shows "length p = n \<and> (\<forall>t<n. p ! t < c t)"
proof -
  from assms have "list_all2 (\<lambda>x ys. x \<in> set ys) p (map (\<lambda>t. [0..<c t]) [0..<n])"
    by (simp add: product_lists_set)
  then show ?thesis by (auto simp: list_all2_conv_all_nth)
qed

lemma sum_list_concat_map:
  fixes h :: "'a \<Rightarrow> real list"
  shows "sum_list (concat (map h xs)) = sum_list (map (\<lambda>x. sum_list (h x)) xs)"
  by (induction xs) simp_all

lemma sum_list_product_lists:
  fixes f :: "nat \<Rightarrow> 'a \<Rightarrow> real"
  shows "sum_list (map (\<lambda>p. \<Prod>t<length xss. f t (p ! t)) (product_lists xss))
           = (\<Prod>t<length xss. sum_list (map (f t) (xss ! t)))"
proof (induction xss arbitrary: f)
  case Nil
  show ?case by simp
next
  case (Cons xs xss)
  have inner: "sum_list (map (\<lambda>p. \<Prod>t<Suc (length xss). f t (p ! t))
                          (map ((#) x) (product_lists xss)))
                 = f 0 x * (\<Prod>t<length xss. sum_list (map (f (Suc t)) (xss ! t)))" for x
  proof -
    have "sum_list (map (\<lambda>p. \<Prod>t<Suc (length xss). f t (p ! t))
                          (map ((#) x) (product_lists xss)))
            = sum_list (map (\<lambda>q. f 0 x * (\<Prod>t<length xss. f (Suc t) (q ! t)))
                          (product_lists xss))"
      by (subst prod.lessThan_Suc_shift) (simp add: o_def)
    also have "\<dots> = f 0 x * sum_list (map (\<lambda>q. \<Prod>t<length xss. f (Suc t) (q ! t))
                                       (product_lists xss))"
      by (rule sum_list_const_mult)
    also have "\<dots> = f 0 x * (\<Prod>t<length xss. sum_list (map (f (Suc t)) (xss ! t)))"
      by (simp only: Cons.IH [of "\<lambda>t. f (Suc t)"])
    finally show ?thesis .
  qed
  have "sum_list (map (\<lambda>p. \<Prod>t<length (xs # xss). f t (p ! t)) (product_lists (xs # xss)))
          = sum_list (map (\<lambda>x. sum_list (map (\<lambda>p. \<Prod>t<Suc (length xss). f t (p ! t))
                          (map ((#) x) (product_lists xss)))) xs)"
    by (simp add: map_concat o_def sum_list_concat_map)
  also have "\<dots> = sum_list (map (\<lambda>x. f 0 x
                  * (\<Prod>t<length xss. sum_list (map (f (Suc t)) (xss ! t)))) xs)"
    by (simp only: inner)
  also have "\<dots> = sum_list (map (f 0) xs)
                  * (\<Prod>t<length xss. sum_list (map (f (Suc t)) (xss ! t)))"
    by (rule sum_list_mult_const)
  also have "\<dots> = (\<Prod>t<length (xs # xss). sum_list (map (f t) ((xs # xss) ! t)))"
    by (simp add: prod.lessThan_Suc_shift del: prod.lessThan_Suc)
  finally show ?case .
qed

lemma sum_list_swap:
  fixes g :: "'a \<Rightarrow> 'b \<Rightarrow> real"
  shows "sum_list (map (\<lambda>x. sum_list (map (g x) ys)) xs)
           = sum_list (map (\<lambda>y. sum_list (map (\<lambda>x. g x y) xs)) ys)"
  by (induction xs) (simp_all add: sum_list_addf)

lemma sum_list_product:
  fixes g :: "'a \<Rightarrow> 'b \<Rightarrow> real"
  shows "sum_list (map (\<lambda>(x, y). g x y) (List.product xs ys))
           = sum_list (map (\<lambda>x. sum_list (map (g x) ys)) xs)"
  by (induction xs) (simp_all add: o_def)

lemma sum_list_chain:
  fixes P :: "nat \<Rightarrow> 'a \<Rightarrow> 'a \<Rightarrow> real"
  assumes "xss \<noteq> [] \<longrightarrow> sum_list (map (P 0 a) (xss ! 0)) = 1"
    and "\<forall>t. Suc t < length xss \<longrightarrow>
           (\<forall>i\<in>set (xss ! t). sum_list (map (P (Suc t) i) (xss ! Suc t)) = 1)"
  shows "sum_list (map (\<lambda>q. \<Prod>t<length xss. P t ((a # q) ! t) ((a # q) ! Suc t))
                     (product_lists xss)) = 1"
  using assms
proof (induction xss arbitrary: P a)
  case Nil
  show ?case by simp
next
  case (Cons xs xss)
  have inner: "sum_list (map (\<lambda>q. \<Prod>t<Suc (length xss). P t ((a # q) ! t) ((a # q) ! Suc t))
                          (map ((#) b) (product_lists xss))) = P 0 a b"
    if b: "b \<in> set xs" for b
  proof -
    have "sum_list (map (\<lambda>q. \<Prod>t<Suc (length xss). P t ((a # q) ! t) ((a # q) ! Suc t))
                          (map ((#) b) (product_lists xss)))
            = sum_list (map (\<lambda>q. P 0 a b *
                  (\<Prod>t<length xss. P (Suc t) ((b # q) ! t) ((b # q) ! Suc t)))
                          (product_lists xss))"
      by (subst prod.lessThan_Suc_shift) (simp add: o_def)
    also have "\<dots> = P 0 a b * sum_list (map (\<lambda>q.
                  \<Prod>t<length xss. P (Suc t) ((b # q) ! t) ((b # q) ! Suc t))
                          (product_lists xss))"
      by (rule sum_list_const_mult)
    also have "sum_list (map (\<lambda>q.
                  \<Prod>t<length xss. P (Suc t) ((b # q) ! t) ((b # q) ! Suc t))
                          (product_lists xss)) = 1"
    proof (rule Cons.IH)
      show "xss \<noteq> [] \<longrightarrow> sum_list (map (P (Suc 0) b) (xss ! 0)) = 1"
        using Cons.prems(2) b by (cases xss) auto
      show "\<forall>t. Suc t < length xss \<longrightarrow>
           (\<forall>i\<in>set (xss ! t). sum_list (map (P (Suc (Suc t)) i) (xss ! Suc t)) = 1)"
        using Cons.prems(2) by (auto dest!: spec [of _ "Suc t" for t])
    qed
    finally show ?thesis by simp
  qed
  have "sum_list (map (\<lambda>q. \<Prod>t<length (xs # xss). P t ((a # q) ! t) ((a # q) ! Suc t))
                     (product_lists (xs # xss)))
          = sum_list (map (\<lambda>b. sum_list (map (\<lambda>q.
                 \<Prod>t<Suc (length xss). P t ((a # q) ! t) ((a # q) ! Suc t))
                          (map ((#) b) (product_lists xss)))) xs)"
    by (simp add: map_concat o_def sum_list_concat_map)
  also have "\<dots> = sum_list (map (P 0 a) xs)"
    by (rule arg_cong [where f = sum_list], rule map_cong [OF refl]) (rule inner)
  also have "\<dots> = 1" using Cons.prems(1) by simp
  finally show ?case .
qed

section \<open>The enumeration\<close>

lemma prod_list_upt_atMost:
  fixes f :: "nat \<Rightarrow> nat"
  shows "prod_list (map f [0..<Suc h]) = (\<Prod>t\<le>h. f t)"
proof -
  have "{..h} = set [0..<Suc h]" by auto
  then have "(\<Prod>t\<le>h. f t) = prod f (set [0..<Suc h])" by (simp only:)
  also have "\<dots> = prod_list (map f [0..<Suc h])"
    by (rule prod.distinct_set_conv_list) (rule distinct_upt)
  finally show ?thesis by (rule sym)
qed

lemma enumerate_independent:
  assumes wf: "wf_independent M" and h: "h < T M"
  shows "enumerate_sample_paths M h =
           Inr (int (\<Prod>t\<le>h. outcome_count M t),
                map Indep (product_lists (map (\<lambda>t. [0..<outcome_count M t]) [0..<h + 1])))"
proof -
  have "py_map (\<lambda>t. py_bind (getitem (models M) t) (\<lambda>sm.
                          py_bind (single_model sm) (\<lambda>m. Inr (n_samples m))))
               [0..<h + 1]
          = Inr (map (outcome_count M) [0..<h + 1])"
  proof (rule py_map_all_Inr, rule ballI)
    fix t assume "t \<in> set [0..<h + 1]"
    with h have t: "t < T M" by auto
    from wf_independent_stage [OF wf t, of 0] wf t
    show "py_bind (getitem (models M) t) (\<lambda>sm.
                          py_bind (single_model sm) (\<lambda>m. Inr (n_samples m)))
            = Inr (outcome_count M t)"
      by (simp add: getitem_def wf_independent_def single_model_def outcome_count_def)
  qed
  moreover have "n_Markov_states M = One" using wf by (simp add: wf_independent_def)
  ultimately show ?thesis
    by (simp add: enumerate_sample_paths_def prod_list_upt_atMost
          o_def del: upt_Suc)
qed

lemma wf_Markov_state_count_pos:
  assumes "wf_Markov M" and "t < T M"
  shows "0 < state_count M t"
proof -
  from assms(1) obtain ns where ns: "n_Markov_states M = Stages ns"
    and all: "list_all
            (\<lambda>t. case models M ! t of
                   Single m \<Rightarrow> False
                 | PerState ms \<Rightarrow>
                     length ms = ns ! t \<and> ms \<noteq> [] \<and>
                     list_all (\<lambda>m. model_ok m \<and> n_samples m = n_samples (ms ! 0)) ms)
            [0..<T M]"
    by (auto simp: wf_Markov_def split: n_Markov.splits)
  from all assms(2) have "case models M ! t of
                   Single m \<Rightarrow> False
                 | PerState ms \<Rightarrow>
                     length ms = ns ! t \<and> ms \<noteq> [] \<and>
                     list_all (\<lambda>m. model_ok m \<and> n_samples m = n_samples (ms ! 0)) ms"
    by (simp add: list_all_iff)
  then obtain ms :: "StochasticModel list" where "length ms = ns ! t" "ms \<noteq> []"
    by (auto split: stage_models.splits)
  then have "0 < ns ! t" by (metis length_greater_0_conv)
  with ns show ?thesis by (simp add: state_count_def)
qed

lemma enumerate_Markov:
  assumes wf: "wf_Markov M" and h: "h < T M"
  shows "enumerate_sample_paths M h =
           Inr (int (\<Prod>t<T M. state_count M t) * int (\<Prod>t\<le>h. outcome_count M t),
                map (\<lambda>(s, m). Mixed s m)
                  (List.product
                     (product_lists (map (\<lambda>t. [0..<outcome_count M t]) [0..<h + 1]))
                     (product_lists (map (\<lambda>t. [0..<state_count M t]) [0..<h + 1]))))"
proof -
  from wf obtain ns where ns: "n_Markov_states M = Stages ns" "length ns = T M"
    "length (models M) = T M"
    by (rule wf_Markov_ns)
  have a: "py_map (\<lambda>t. py_bind (getitem (models M) t) (\<lambda>sm.
                          py_bind (state_model sm 0) (\<lambda>m. Inr (n_samples m))))
               [0..<h + 1]
          = Inr (map (outcome_count M) [0..<h + 1])"
  proof (rule py_map_all_Inr, rule ballI)
    fix t assume "t \<in> set [0..<h + 1]"
    with h have t: "t < T M" by auto
    from wf_Markov_stage [OF wf t wf_Markov_state_count_pos [OF wf t]] obtain ms where
      "models M ! t = PerState ms" "0 < length ms" "ms ! 0 = stage_model M t 0"
      by blast
    with t ns show "py_bind (getitem (models M) t) (\<lambda>sm.
                          py_bind (state_model sm 0) (\<lambda>m. Inr (n_samples m)))
            = Inr (outcome_count M t)"
      by (simp add: getitem_def state_model_def outcome_count_def)
  qed
  have b: "py_map (getitem ns) [0..<h + 1] = Inr (map (state_count M) [0..<h + 1])"
    using ns h by (intro py_map_all_Inr) (auto simp: getitem_def state_count_def)
  have "ns = map (state_count M) [0..<T M]"
    using ns by (simp add: list_eq_iff_nth_eq state_count_def)
  then have "prod_list ns = prod_list (map (state_count M) [0..<T M])" by simp
  also have "\<dots> = (\<Prod>t<T M. state_count M t)"
    using prod.distinct_set_conv_list [of "[0..<T M]" "state_count M"]
    by (simp add: atLeast0LessThan)
  finally have c: "prod_list ns = (\<Prod>t<T M. state_count M t)" .
  show ?thesis
    using a b ns(1)
    by (simp add: enumerate_sample_paths_def c
          prod_list_upt_atMost o_def del: upt_Suc)
qed

lemma outcome_probabilities_sum:
  assumes "model_ok (stage_model M t k)" and "n_samples (stage_model M t k) = c"
  shows "sum_list (map (\<lambda>i. probabilityOf M t i k) [0..<c]) = 1"
proof -
  have "map (\<lambda>i. probabilityOf M t i k) [0..<c] = model_probability (stage_model M t k)"
    using assms model_probability_length [OF assms(1)]
      model_probability_probabilityOf [OF assms(1)]
    by (simp add: list_eq_iff_nth_eq)
  with model_probability_sum [OF assms(1)] show ?thesis by simp
qed

lemma transition_row_sum:
  assumes "wf_Markov M" and "1 \<le> t" and "t < T M" and "i < state_count M (t - 1)"
  shows "sum_list (map (\<lambda>j. transition_matrix M ! t ! i ! j) [0..<state_count M t]) = 1"
proof -
  from wf_Markov_transition [OF assms]
  have len: "length (transition_matrix M ! t ! i) = state_count M t"
    and s: "sum_list (transition_matrix M ! t ! i) = 1" by simp_all
  have "map (\<lambda>j. transition_matrix M ! t ! i ! j) [0..<state_count M t]
          = transition_matrix M ! t ! i"
    unfolding len [symmetric] by (rule map_nth)
  with s show ?thesis by simp
qed

lemma independent_weights_total:
  assumes wf: "wf_independent M" and h: "h < T M"
  shows "sum_list (map (weightOf M)
           (map Indep (product_lists (map (\<lambda>t. [0..<outcome_count M t]) [0..<Suc h])))) = 1"
proof -
  let ?xss = "map (\<lambda>t. [0..<outcome_count M t]) [0..<Suc h]"
  have "map (weightOf M) (map Indep (product_lists ?xss))
          = map (\<lambda>p. \<Prod>t<length ?xss. probabilityOf M t (p ! t) 0) (product_lists ?xss)"
    using in_set_product_lists_length [of _ ?xss] by (simp del: upt_Suc)
  then have "sum_list (map (weightOf M) (map Indep (product_lists ?xss)))
          = sum_list (map (\<lambda>p. \<Prod>t<length ?xss. probabilityOf M t (p ! t) 0)
                        (product_lists ?xss))"
    by (simp only:)
  also have "\<dots> = (\<Prod>t<length ?xss. sum_list (map (\<lambda>i. probabilityOf M t i 0) (?xss ! t)))"
    by (rule sum_list_product_lists [of "\<lambda>t i. probabilityOf M t i 0" ?xss])
  also have "\<dots> = (\<Prod>t<Suc h. 1)"
  proof (rule prod.cong)
    fix t assume "t \<in> {..<Suc h}"
    then have t: "t < Suc h" by simp
    with h have tT: "t < T M" by simp
    from wf_independent_stage [OF wf tT, of 0]
    have "sum_list (map (\<lambda>i. probabilityOf M t i 0) [0..<outcome_count M t]) = 1"
      by (intro outcome_probabilities_sum) (simp_all add: outcome_count_def)
    with t show "sum_list (map (\<lambda>i. probabilityOf M t i 0) (?xss ! t)) = 1"
      by (simp del: upt_Suc)
  qed simp
  finally show ?thesis by simp
qed

lemma Markov_chain_total:
  assumes wf: "wf_Markov M" and h: "h < T M"
  shows "sum_list (map (\<lambda>m. \<Prod>t\<in>{1..<Suc h}. transition_matrix M ! t ! (m ! (t - 1)) ! (m ! t))
            (product_lists (map (\<lambda>t. [0..<state_count M t]) [0..<Suc h]))) = 1"
proof -
  let ?P = "\<lambda>t i j. transition_matrix M ! Suc t ! i ! j"
  let ?yss = "map (\<lambda>t. [0..<state_count M (Suc t)]) [0..<h]"
  from wf have "state_count M 0 = 1"
    by (auto simp: wf_Markov_def state_count_def split: n_Markov.splits)
  then have split: "product_lists (map (\<lambda>t. [0..<state_count M t]) [0..<Suc h])
                 = map ((#) 0) (product_lists ?yss)"
    by (simp add: upt_conv_Cons map_Suc_upt [symmetric] o_def del: upt_Suc)
  have shift: "(\<Prod>t\<in>{1..<Suc h}. transition_matrix M ! t ! ((0 # q) ! (t - 1)) ! ((0 # q) ! t))
               = (\<Prod>t<length ?yss. ?P t ((0 # q) ! t) ((0 # q) ! Suc t))" for q :: "nat list"
  proof -
    have "(\<Prod>t\<in>{Suc 0..<Suc h}. transition_matrix M ! t ! ((0 # q) ! (t - 1)) ! ((0 # q) ! t))
            = (\<Prod>t\<in>{0..<h}. ?P t ((0 # q) ! t) ((0 # q) ! Suc t))"
      by (subst prod.atLeast_Suc_lessThan_Suc_shift) (simp add: o_def)
    then show ?thesis by (simp add: atLeast0LessThan)
  qed
  have "sum_list (map (\<lambda>q. \<Prod>t<length ?yss. ?P t ((0 # q) ! t) ((0 # q) ! Suc t))
                     (product_lists ?yss)) = 1"
  proof (rule sum_list_chain)
    show "?yss \<noteq> [] \<longrightarrow> sum_list (map (?P 0 0) (?yss ! 0)) = 1"
    proof
      assume "?yss \<noteq> []"
      then have "0 < h" by simp
      with h have "1 < T M" by simp
      from transition_row_sum [OF wf _ this, of 0] \<open>state_count M 0 = 1\<close> \<open>0 < h\<close>
      show "sum_list (map (?P 0 0) (?yss ! 0)) = 1" by simp
    qed
    show "\<forall>t. Suc t < length ?yss \<longrightarrow>
           (\<forall>i\<in>set (?yss ! t). sum_list (map (?P (Suc t) i) (?yss ! Suc t)) = 1)"
    proof (intro allI impI ballI)
      fix t i assume t: "Suc t < length ?yss" and i: "i \<in> set (?yss ! t)"
      from t have th: "Suc t < h" by simp
      with i have "i < state_count M (Suc t)" by simp
      with h th transition_row_sum [OF wf, of "Suc (Suc t)" i]
      have "sum_list (map (\<lambda>j. transition_matrix M ! Suc (Suc t) ! i ! j)
                       [0..<state_count M (Suc (Suc t))]) = 1"
        by simp
      with th show "sum_list (map (?P (Suc t) i) (?yss ! Suc t)) = 1" by simp
    qed
  qed
  then show ?thesis
    unfolding split by (simp only: map_map o_def shift)
qed

lemma mixed_weights_total:
  assumes wf: "wf_Markov M" and h: "h < T M"
  shows "sum_list (map (weightOf M)
           (map (\<lambda>(s, m). Mixed s m)
              (List.product
                 (product_lists (map (\<lambda>t. [0..<outcome_count M t]) [0..<Suc h]))
                 (product_lists (map (\<lambda>t. [0..<state_count M t]) [0..<Suc h]))))) = 1"
proof -
  let ?xss = "map (\<lambda>t. [0..<outcome_count M t]) [0..<Suc h]"
  let ?yss = "map (\<lambda>t. [0..<state_count M t]) [0..<Suc h]"
  let ?S = "product_lists ?xss"
  let ?Mk = "product_lists ?yss"
  let ?trans = "\<lambda>m. \<Prod>t\<in>{1..<Suc h}. transition_matrix M ! t ! (m ! (t - 1)) ! (m ! t)"
  let ?outc = "\<lambda>s m. \<Prod>t<length ?xss. probabilityOf M t (s ! t) (m ! t)"
  have lenS: "length s = Suc h" if "s \<in> set ?S" for s
    using in_set_product_lists_length [OF that] by simp
  have "map (weightOf M) (map (\<lambda>(s, m). Mixed s m) (List.product ?S ?Mk))
          = map (\<lambda>(s, m). ?trans m * ?outc s m) (List.product ?S ?Mk)"
    using lenS by (auto simp del: upt_Suc)
  then have "sum_list (map (weightOf M) (map (\<lambda>(s, m). Mixed s m) (List.product ?S ?Mk)))
          = sum_list (map (\<lambda>(s, m). ?trans m * ?outc s m) (List.product ?S ?Mk))"
    by (simp only:)
  also have "\<dots> = sum_list (map (\<lambda>s. sum_list (map (\<lambda>m. ?trans m * ?outc s m) ?Mk)) ?S)"
    by (rule sum_list_product [of "\<lambda>s m. ?trans m * ?outc s m" ?S ?Mk])
  also have "\<dots> = sum_list (map (\<lambda>m. sum_list (map (\<lambda>s. ?trans m * ?outc s m) ?S)) ?Mk)"
    by (rule sum_list_swap [of "\<lambda>s m. ?trans m * ?outc s m" ?Mk ?S])
  also have "\<dots> = sum_list (map ?trans ?Mk)"
  proof (rule arg_cong [where f = sum_list], rule map_cong [OF refl])
    fix m assume m: "m \<in> set ?Mk"
    from product_lists_upt_range [OF m]
    have mk: "\<forall>t<Suc h. m ! t < state_count M t" by simp
    have "sum_list (map (\<lambda>s. ?outc s m) ?S)
            = (\<Prod>t<length ?xss. sum_list (map (\<lambda>i. probabilityOf M t i (m ! t)) (?xss ! t)))"
      by (rule sum_list_product_lists [of "\<lambda>t i. probabilityOf M t i (m ! t)" ?xss])
    also have "\<dots> = (\<Prod>t<Suc h. 1)"
    proof (rule prod.cong)
      fix t assume "t \<in> {..<Suc h}"
      then have t: "t < Suc h" by simp
      with h have tT: "t < T M" by simp
      from mk t have k: "m ! t < state_count M t" by simp
      from wf_Markov_stage [OF wf tT k]
      have "sum_list (map (\<lambda>i. probabilityOf M t i (m ! t)) [0..<outcome_count M t]) = 1"
        by (intro outcome_probabilities_sum) auto
      with t show "sum_list (map (\<lambda>i. probabilityOf M t i (m ! t)) (?xss ! t)) = 1"
        by (simp del: upt_Suc)
    qed simp
    finally have one: "sum_list (map (\<lambda>s. ?outc s m) ?S) = 1" by simp
    have "sum_list (map (\<lambda>s. ?trans m * ?outc s m) ?S)
            = ?trans m * sum_list (map (\<lambda>s. ?outc s m) ?S)"
      by (rule sum_list_const_mult)
    with one show "sum_list (map (\<lambda>s. ?trans m * ?outc s m) ?S) = ?trans m" by simp
  qed
  also have "\<dots> = 1" using wf h by (rule Markov_chain_total)
  finally show ?thesis .
qed

lemma enumerated_independent_in_range:
  assumes "h < T M"
    and "p \<in> set (product_lists (map (\<lambda>t. [0..<outcome_count M t]) [0..<Suc h]))"
  shows "path_in_range M (Indep p)"
  using product_lists_upt_range [OF assms(2)] assms(1) by (simp add: list_all_iff del: upt_Suc)

lemma enumerated_Markov_in_range:
  assumes "h < T M"
    and "s \<in> set (product_lists (map (\<lambda>t. [0..<outcome_count M t]) [0..<Suc h]))"
    and "m \<in> set (product_lists (map (\<lambda>t. [0..<state_count M t]) [0..<Suc h]))"
  shows "path_in_range M (Mixed s m)"
  using product_lists_upt_range [OF assms(2)] product_lists_upt_range [OF assms(3)] assms(1)
  by (simp add: list_all_iff del: upt_Suc)

text \<open>
  Claim C4. For a well-formed program and a horizon within its stages, the enumeration
  returns as many sample paths as the product of the outcome counts of the stages, times
  the product of the Markov-state counts of the stages in the mixed case; the paths are
  pairwise distinct; every path has a weight, and the weights sum to one. In the mixed case
  the count returned beside the paths is the number of paths when the horizon is the last
  stage, as it is where the evaluation calls the enumeration.
\<close>

theorem enumeration_count_distinct_total:
  "(wf_independent M \<and> h < T M \<longrightarrow>
      (\<exists>paths. enumerate_sample_paths M h = Inr (int (\<Prod>t\<le>h. outcome_count M t), paths) \<and>
         length paths = (\<Prod>t\<le>h. outcome_count M t) \<and> distinct paths \<and>
         py_map (compute_weight_sample_path M) paths = Inr (map (weightOf M) paths) \<and>
         sum_list (map (weightOf M) paths) = 1))
   \<and> (wf_Markov M \<and> h < T M \<longrightarrow>
      (\<exists>c paths. enumerate_sample_paths M h = Inr (c, paths) \<and>
         (h + 1 = T M \<longrightarrow> c = int (length paths)) \<and>
         length paths = (\<Prod>t\<le>h. outcome_count M t) * (\<Prod>t\<le>h. state_count M t) \<and>
         distinct paths \<and>
         py_map (compute_weight_sample_path M) paths = Inr (map (weightOf M) paths) \<and>
         sum_list (map (weightOf M) paths) = 1))"
proof (intro conjI impI)
  assume a: "wf_independent M \<and> h < T M"
  then have wf: "wf_independent M" and h: "h < T M" by simp_all
  let ?xss = "map (\<lambda>t. [0..<outcome_count M t]) [0..<Suc h]"
  let ?paths = "map Indep (product_lists ?xss)"
  have e: "enumerate_sample_paths M h = Inr (int (\<Prod>t\<le>h. outcome_count M t), ?paths)"
    using enumerate_independent [OF wf h] by simp
  have l: "length ?paths = (\<Prod>t\<le>h. outcome_count M t)"
    by (simp add: length_product_lists_prod o_def prod_list_upt_atMost del: upt_Suc)
  have d: "distinct ?paths"
    by (simp add: distinct_map distinct_product_lists inj_on_def del: upt_Suc)
  have w: "py_map (compute_weight_sample_path M) ?paths = Inr (map (weightOf M) ?paths)"
  proof (rule py_map_all_Inr, rule ballI)
    fix path assume "path \<in> set ?paths"
    then obtain p where "path = Indep p" "p \<in> set (product_lists ?xss)" by auto
    with enumerated_independent_in_range [OF h, of p] weight_independent [OF wf, of p]
    show "compute_weight_sample_path M path = Inr (weightOf M path)" by simp
  qed
  have s: "sum_list (map (weightOf M) ?paths) = 1"
    using wf h by (rule independent_weights_total)
  from e l d w s
  show "\<exists>paths. enumerate_sample_paths M h = Inr (int (\<Prod>t\<le>h. outcome_count M t), paths) \<and>
         length paths = (\<Prod>t\<le>h. outcome_count M t) \<and> distinct paths \<and>
         py_map (compute_weight_sample_path M) paths = Inr (map (weightOf M) paths) \<and>
         sum_list (map (weightOf M) paths) = 1"
    by (intro exI [of _ ?paths] conjI)
next
  assume a: "wf_Markov M \<and> h < T M"
  then have wf: "wf_Markov M" and h: "h < T M" by simp_all
  let ?xss = "map (\<lambda>t. [0..<outcome_count M t]) [0..<Suc h]"
  let ?yss = "map (\<lambda>t. [0..<state_count M t]) [0..<Suc h]"
  let ?paths = "map (\<lambda>(s, m). Mixed s m) (List.product (product_lists ?xss) (product_lists ?yss))"
  let ?c = "int (\<Prod>t<T M. state_count M t) * int (\<Prod>t\<le>h. outcome_count M t)"
  have e: "enumerate_sample_paths M h = Inr (?c, ?paths)"
    using enumerate_Markov [OF wf h] by simp
  have l: "length ?paths = (\<Prod>t\<le>h. outcome_count M t) * (\<Prod>t\<le>h. state_count M t)"
    by (simp add: length_product_lists_prod o_def prod_list_upt_atMost del: upt_Suc)
  have c: "h + 1 = T M \<longrightarrow> ?c = int (length ?paths)"
    unfolding l by (auto simp: lessThan_Suc_atMost [symmetric] simp del: prod.lessThan_Suc)
  have d: "distinct ?paths"
    by (simp add: distinct_map distinct_product distinct_product_lists inj_on_def del: upt_Suc)
  have w: "py_map (compute_weight_sample_path M) ?paths = Inr (map (weightOf M) ?paths)"
  proof (rule py_map_all_Inr, rule ballI)
    fix path assume "path \<in> set ?paths"
    then obtain s m where "path = Mixed s m" "s \<in> set (product_lists ?xss)"
      "m \<in> set (product_lists ?yss)" by auto
    with enumerated_Markov_in_range [OF h, of s m] weight_Markov [OF wf, of s m]
    show "compute_weight_sample_path M path = Inr (weightOf M path)" by simp
  qed
  have s: "sum_list (map (weightOf M) ?paths) = 1"
    using wf h by (rule mixed_weights_total)
  from e c l d w s
  show "\<exists>c paths. enumerate_sample_paths M h = Inr (c, paths) \<and>
         (h + 1 = T M \<longrightarrow> c = int (length paths)) \<and>
         length paths = (\<Prod>t\<le>h. outcome_count M t) * (\<Prod>t\<le>h. state_count M t) \<and>
         distinct paths \<and>
         py_map (compute_weight_sample_path M) paths = Inr (map (weightOf M) paths) \<and>
         sum_list (map (weightOf M) paths) = 1"
    by (intro exI [of _ ?c] exI [of _ ?paths] conjI)
qed

text \<open>
  Claim C5. The weight of a sample path whose indices exist is the product of the stage-wise
  outcome probabilities; in the mixed case it is the product of the transition
  probabilities along the Markov-state indices times the product of the outcome
  probabilities given the Markov states. For the three-stage chain of the example the
  enumeration yields four paths, of weights \<open>0.3 * 0.6\<close>, \<open>0.3 * 0.4\<close>, \<open>0.7 * 0.2\<close> and
  \<open>0.7 * 0.8\<close>, which sum to one.
\<close>

theorem weight_of_path:
  "(wf_independent M \<and> path_in_range M (Indep s) \<longrightarrow>
      compute_weight_sample_path M (Indep s)
        = Inr (\<Prod>t<length s. probabilityOf M t (s ! t) 0))
   \<and> (wf_Markov M \<and> path_in_range M (Mixed s m) \<longrightarrow>
      compute_weight_sample_path M (Mixed s m)
        = Inr ((\<Prod>t\<in>{1..<length s}. transition_matrix M ! t ! (m ! (t - 1)) ! (m ! t))
               * (\<Prod>t<length s. probabilityOf M t (s ! t) (m ! t))))
   \<and> enumerate_sample_paths example_chain 2
        = Inr (4, [Mixed [0, 0, 0] [0, 0, 0], Mixed [0, 0, 0] [0, 0, 1],
                   Mixed [0, 0, 0] [0, 1, 0], Mixed [0, 0, 0] [0, 1, 1]])
   \<and> py_map (compute_weight_sample_path example_chain)
         [Mixed [0, 0, 0] [0, 0, 0], Mixed [0, 0, 0] [0, 0, 1],
          Mixed [0, 0, 0] [0, 1, 0], Mixed [0, 0, 0] [0, 1, 1]]
        = Inr [3 / 10 * (6 / 10), 3 / 10 * (4 / 10), 7 / 10 * (2 / 10), 7 / 10 * (8 / 10)]
   \<and> sum_list [3 / 10 * (6 / 10), 3 / 10 * (4 / 10), 7 / 10 * (2 / 10), 7 / 10 * (8 / 10)]
        = (1 :: real)"
proof (intro conjI impI)
  assume "wf_independent M \<and> path_in_range M (Indep s)"
  then show "compute_weight_sample_path M (Indep s)
        = Inr (\<Prod>t<length s. probabilityOf M t (s ! t) 0)"
    using weight_independent [of M s] by simp
next
  assume "wf_Markov M \<and> path_in_range M (Mixed s m)"
  then show "compute_weight_sample_path M (Mixed s m)
        = Inr ((\<Prod>t\<in>{1..<length s}. transition_matrix M ! t ! (m ! (t - 1)) ! (m ! t))
               * (\<Prod>t<length s. probabilityOf M t (s ! t) (m ! t)))"
    using weight_Markov [of M s m] by simp
next
  show "enumerate_sample_paths example_chain 2
        = Inr (4, [Mixed [0, 0, 0] [0, 0, 0], Mixed [0, 0, 0] [0, 0, 1],
                   Mixed [0, 0, 0] [0, 1, 0], Mixed [0, 0, 0] [0, 1, 1]])"
    by code_simp
next
  show "py_map (compute_weight_sample_path example_chain)
         [Mixed [0, 0, 0] [0, 0, 0], Mixed [0, 0, 0] [0, 0, 1],
          Mixed [0, 0, 0] [0, 1, 0], Mixed [0, 0, 0] [0, 1, 1]]
        = Inr [3 / 10 * (6 / 10), 3 / 10 * (4 / 10), 7 / 10 * (2 / 10), 7 / 10 * (8 / 10)]"
    by code_simp
next
  show "sum_list [3 / 10 * (6 / 10), 3 / 10 * (4 / 10), 7 / 10 * (2 / 10), 7 / 10 * (8 / 10)]
        = (1 :: real)"
    by simp
qed

lemma examples_well_formed:
  "wf_independent example_independent" "wf_Markov example_chain"
  "path_in_range example_independent (Indep [0, 1])"
  "path_in_range example_chain (Mixed [0, 0, 0] [0, 1, 1])"
  by code_simp+

theorem weight_of_path_witness:
  "compute_weight_sample_path example_independent (Indep [0, 1])
     = Inr (\<Prod>t<length [0, 1 :: nat]. probabilityOf example_independent t ([0, 1] ! t) 0)
   \<and> compute_weight_sample_path example_independent (Indep [0, 1]) = Inr (3 / 4)
   \<and> compute_weight_sample_path example_chain (Mixed [0, 0, 0] [0, 1, 1])
     = Inr ((\<Prod>t\<in>{1..<length [0, 0, 0 :: nat]}.
               transition_matrix example_chain ! t ! ([0, 1, 1] ! (t - 1)) ! ([0, 1, 1] ! t))
            * (\<Prod>t<length [0, 0, 0 :: nat].
                 probabilityOf example_chain t ([0, 0, 0] ! t) ([0, 1, 1] ! t)))
   \<and> compute_weight_sample_path example_chain (Mixed [0, 0, 0] [0, 1, 1]) = Inr (7 / 10 * (8 / 10))"
proof -
  have "compute_weight_sample_path example_independent (Indep [0, 1]) = Inr (3 / 4)"
    "compute_weight_sample_path example_chain (Mixed [0, 0, 0] [0, 1, 1]) = Inr (7 / 10 * (8 / 10))"
    by code_simp+
  with weight_of_path [where M = example_independent and s = "[0, 1]", THEN conjunct1]
       weight_of_path [where M = example_chain and s = "[0, 0, 0]" and m = "[0, 1, 1]",
         THEN conjunct2, THEN conjunct1]
       examples_well_formed
  show ?thesis by blast
qed

theorem enumeration_count_distinct_total_witness:
  "(\<exists>paths. enumerate_sample_paths example_independent 1
               = Inr (int (\<Prod>t\<le>1. outcome_count example_independent t), paths) \<and>
         length paths = (\<Prod>t\<le>1. outcome_count example_independent t) \<and> distinct paths \<and>
         py_map (compute_weight_sample_path example_independent) paths
           = Inr (map (weightOf example_independent) paths) \<and>
         sum_list (map (weightOf example_independent) paths) = 1)
   \<and> (\<exists>c paths. enumerate_sample_paths example_chain 2 = Inr (c, paths) \<and>
         (2 + 1 = T example_chain \<longrightarrow> c = int (length paths)) \<and>
         length paths = (\<Prod>t\<le>2. outcome_count example_chain t)
                         * (\<Prod>t\<le>2. state_count example_chain t) \<and>
         distinct paths \<and>
         py_map (compute_weight_sample_path example_chain) paths
           = Inr (map (weightOf example_chain) paths) \<and>
         sum_list (map (weightOf example_chain) paths) = 1)"
proof -
  have "1 < T example_independent" "2 < T example_chain" by code_simp+
  with enumeration_count_distinct_total [where M = example_independent and h = 1, THEN conjunct1]
       enumeration_count_distinct_total [where M = example_chain and h = 2, THEN conjunct2]
       examples_well_formed(1,2)
  show ?thesis by blast
qed

end
